theory Spec2Isabelle
  imports Complex_Main "HOL-Library.Word"
begin

unbundle bit_operations_syntax

section \<open>JavaScript values used by whammy.js\<close>

text \<open>
  JavaScript numbers are modelled as \<^typ>\<open>int\<close>: every number that whammy.js handles on
  the paths embedded here (ids, lengths, pixel sizes, millisecond durations, byte
  positions) is an integer.  The bitwise operators of JavaScript first convert their
  operands to a signed 32-bit integer; \<open>toInt32\<close> is that conversion and the operators
  below apply it to each operand, as the language does.

  A JavaScript string is a list of UTF-16 code units (\<^typ>\<open>nat\<close>, below 65536); a
  \<open>Uint8Array\<close> is a list of bytes (\<^typ>\<open>nat\<close>, below 256).  Strings built from the
  characters \<open>0\<close>, \<open>1\<close> and \<open>-\<close> only (the binary numerals of \<open>toString(2)\<close>) are HOL
  strings.
\<close>

type_synonym jsstring = "nat list"
type_synonym bytes = "nat list"

datatype error =
    NoFrames
  | InconsistentWidth nat
  | InconsistentHeight nat
  | InvalidDuration nat
  | TrackNumberTooLarge
  | RangeError
  | TypeError

definition toInt32 :: "int \<Rightarrow> int" where
  "toInt32 x = (x + 2 ^ 31) mod 2 ^ 32 - 2 ^ 31"

definition js_and :: "int \<Rightarrow> int \<Rightarrow> int" where
  "js_and a b = toInt32 a AND toInt32 b"

definition js_or :: "int \<Rightarrow> int \<Rightarrow> int" where
  "js_or a b = toInt32 a OR toInt32 b"

definition js_shr :: "int \<Rightarrow> nat \<Rightarrow> int" where
  "js_shr a k = drop_bit (k mod 32) (toInt32 a)"

definition js_shl :: "int \<Rightarrow> nat \<Rightarrow> int" where
  "js_shl a k = toInt32 (push_bit (k mod 32) (toInt32 a))"

text \<open>\<open>Math.round(x)\<close> is the integer nearest to \<open>x\<close>, the larger one at a tie.  It is
  defined on the rationals; the numbers that the embedded functions hand to it are
  integers, on which it returns its argument.\<close>

definition Math_round :: "rat \<Rightarrow> int" where
  "Math_round x = \<lfloor>x + 1 / 2\<rfloor>"

text \<open>\<open>String.fromCharCode\<close> keeps the low 16 bits; storing into a \<open>Uint8Array\<close> keeps the
  low 8 bits.\<close>

definition fromCharCode :: "int \<Rightarrow> nat" where
  "fromCharCode c = nat (c mod 65536)"

definition toUint8 :: "int \<Rightarrow> nat" where
  "toUint8 v = nat (v mod 256)"

text \<open>\<open>'0'.repeat(count)\<close> raises a RangeError for a negative count.\<close>

definition repeat0 :: "int \<Rightarrow> error + string" where
  "repeat0 count = (if count < 0 then Inl RangeError else Inr (replicate (nat count) CHR ''0''))"

text \<open>\<open>num.toString(2)\<close> on an integer: the binary digits, after a minus sign when the
  number is negative.\<close>

fun binDigits :: "nat \<Rightarrow> string" where
  "binDigits n = (if n < 2 then [if n = 0 then CHR ''0'' else CHR ''1'']
                  else binDigits (n div 2) @ [if n mod 2 = 0 then CHR ''0'' else CHR ''1''])"

declare binDigits.simps [simp del]

definition toString2 :: "int \<Rightarrow> string" where
  "toString2 n = (if n < 0 then CHR ''-'' # binDigits (nat (- n)) else binDigits (nat n))"

text \<open>\<open>parseInt(s, 2)\<close>: an optional sign, then the longest run of binary digits; \<open>None\<close>
  is NaN (no digit at all).  Leading white space, which \<open>parseInt\<close> would skip, never
  occurs in the strings of this program and is not modelled.\<close>

definition isBinDigit :: "char \<Rightarrow> bool" where
  "isBinDigit c = (c = CHR ''0'' \<or> c = CHR ''1'')"

definition binValue :: "string \<Rightarrow> int" where
  "binValue ds = foldl (\<lambda>a c. 2 * a + (if c = CHR ''1'' then 1 else 0)) 0 ds"

definition parseInt2 :: "string \<Rightarrow> int option" where
  "parseInt2 s =
     (let neg = (s \<noteq> [] \<and> hd s = CHR ''-'');
          r = (if s \<noteq> [] \<and> (hd s = CHR ''-'' \<or> hd s = CHR ''+'') then tl s else s);
          ds = takeWhile isBinDigit r
      in if ds = [] then None
         else Some (if neg then - binValue ds else binValue ds))"

section \<open>NumericCodec\<close>

text \<open>\<open>numToBuffer\<close> (lines 62-69): the loop runs while \<open>num > 0\<close>, pushing \<open>num & 0xff\<close>
  and shifting; the parts are reversed at the end, so the byte pushed first is last.\<close>

function numToBuffer :: "int \<Rightarrow> bytes" where
  "numToBuffer num =
     (if num > 0 then numToBuffer (js_shr num 8) @ [toUint8 (js_and num 0xff)] else [])"
  by pat_completeness auto

termination numToBuffer
proof (relation "measure nat")
  show "wf (measure nat)" by simp
next
  fix num :: int
  assume pos: "0 < num"
  have "(num + 2 ^ 31) mod 2 ^ 32 \<le> num + 2 ^ 31"
    by (rule zmod_le_nonneg_dividend) (use pos in simp)
  then have le: "toInt32 num \<le> num" by (simp add: toInt32_def)
  have "toInt32 num div 256 < num"
  proof (cases "0 < toInt32 num")
    case True
    then have "toInt32 num div 256 < toInt32 num" by simp
    with le show ?thesis by simp
  next
    case False
    then have "toInt32 num div 256 \<le> 0"
      by (simp add: div_int_pos_iff not_less)
    with pos show ?thesis by simp
  qed
  then show "(js_shr num 8, num) \<in> measure nat"
    using pos by (simp add: js_shr_def drop_bit_eq_div)
qed

declare numToBuffer.simps [simp del]

text \<open>\<open>numToFixedBuffer\<close> (lines 74-81): \<open>size\<close> bytes, filled from the last index down.\<close>

fun numToFixedBuffer :: "int \<Rightarrow> nat \<Rightarrow> bytes" where
  "numToFixedBuffer num 0 = []"
| "numToFixedBuffer num (Suc i) =
     numToFixedBuffer (js_shr num 8) i @ [toUint8 (js_and num 0xff)]"

text \<open>\<open>strToBuffer\<close> (lines 86-92): each code unit stored into a \<open>Uint8Array\<close>.\<close>

definition strToBuffer :: "jsstring \<Rightarrow> bytes" where
  "strToBuffer str = map (\<lambda>c. c mod 256) str"

text \<open>\<open>bitsToBuffer\<close> (lines 97-107): left-pad with zeros to a multiple of 8 characters,
  then parse each group of 8 (\<open>substr(i, 8)\<close> for \<open>i = 0, 8, 16, ...\<close>) as a binary numeral.
  A group that parses to NaN is stored as 0.\<close>

definition bitsToBuffer :: "string \<Rightarrow> bytes" where
  "bitsToBuffer bits =
     (let pad = (if length bits mod 8 \<noteq> 0
                 then replicate (8 - length bits mod 8) CHR ''0'' else []);
          paddedBits = pad @ bits
      in map (\<lambda>k. case parseInt2 (take 8 (drop (8 * k) paddedBits)) of
                     None \<Rightarrow> 0 | Some v \<Rightarrow> toUint8 v)
             [0 ..< (length paddedBits + 7) div 8])"

text \<open>The size descriptor of \<open>generateEBML\<close> (lines 164-168 and 171), called \<open>vintSize\<close>
  in the specification.  \<open>Math.ceil(Math.log(len) / Math.log(2))\<close> is taken as the exact
  ceiling of the binary logarithm (\<open>ceilLog2\<close>); \<open>Math.log(1)\<close> is exactly 0 and
  \<open>Math.log(0)\<close> is \<open>-Infinity\<close>, which makes \<open>zeroes\<close> \<open>-Infinity\<close> and the first
  \<open>repeat\<close> raise a RangeError.\<close>

fun ceilLog2 :: "nat \<Rightarrow> nat" where
  "ceilLog2 n = (if n \<le> 1 then 0 else Suc (ceilLog2 ((n + 1) div 2)))"

declare ceilLog2.simps [simp del]

definition vintSize :: "nat \<Rightarrow> error + bytes" where
  "vintSize len =
     (if len = 0 then Inl RangeError
      else
        let zeroes = int ((ceilLog2 len + 7) div 8);
            sizeStr = toString2 (int len)
        in case repeat0 ((zeroes * 7 + 7 + 1) - int (length sizeStr)) of
             Inl e \<Rightarrow> Inl e
           | Inr z1 \<Rightarrow>
               (let padded = z1 @ sizeStr
                in case repeat0 zeroes of
                     Inl e \<Rightarrow> Inl e
                   | Inr z2 \<Rightarrow> Inr (bitsToBuffer (z2 @ ''1'' @ padded))))"

section \<open>ElementTree serializer\<close>

text \<open>An element of the JSON tree is either already encoded data (no \<open>id\<close>) or an object
  with \<open>id\<close>, \<open>data\<close> and an optional \<open>size\<close>; \<open>data\<close> is an array of elements, a number
  or a string.\<close>

datatype element = Raw bytes | Typed int content "nat option"
and content = Children "element list" | Num int | Str jsstring

text \<open>\<open>generateEBML\<close> (lines 138-178) with \<open>outputAsArray = true\<close>: the result is the
  flattened byte array.  An element whose \<open>id\<close> is 0 is falsy and is pushed as it is; the
  object becomes the single byte 0 in the \<open>Uint8Array\<close>.\<close>

fun generateEBML :: "element list \<Rightarrow> error + bytes"
and resolveData :: "content \<Rightarrow> nat option \<Rightarrow> error + bytes" where
  "generateEBML [] = Inr []"
| "generateEBML (Raw b # json) =
     (case generateEBML json of Inl e \<Rightarrow> Inl e | Inr r \<Rightarrow> Inr (b @ r))"
| "generateEBML (Typed i d s # json) =
     (if i = 0 then (case generateEBML json of Inl e \<Rightarrow> Inl e | Inr r \<Rightarrow> Inr (0 # r))
      else case resolveData d s of
             Inl e \<Rightarrow> Inl e
           | Inr dat \<Rightarrow>
               (case vintSize (length dat) of
                  Inl e \<Rightarrow> Inl e
                | Inr sz \<Rightarrow>
                    (case generateEBML json of
                       Inl e \<Rightarrow> Inl e
                     | Inr r \<Rightarrow> Inr (numToBuffer i @ sz @ dat @ r))))"
| "resolveData (Children els) s = generateEBML els"
| "resolveData (Num n) s =
     Inr (case s of
            Some k \<Rightarrow> if k \<noteq> 0 then numToFixedBuffer n k else bitsToBuffer (toString2 n)
          | None \<Rightarrow> bitsToBuffer (toString2 n))"
| "resolveData (Str str) s = Inr (strToBuffer str)"

section \<open>BlockPacker\<close>

record block_args =
  trackNum :: int
  timecode :: int
  keyframe :: int
  invisible :: int
  lacing :: int
  discardable :: int
  frame :: jsstring

text \<open>\<open>makeSimpleBlock\<close> (lines 183-202).  The result is a JavaScript string: four header
  characters followed by the frame.\<close>

definition makeSimpleBlock :: "block_args \<Rightarrow> error + jsstring" where
  "makeSimpleBlock a =
     (if trackNum a > 127 then Inl TrackNumberTooLarge
      else
        let flags0 = 0;
            flags1 = (if keyframe a \<noteq> 0 then js_or flags0 128 else flags0);
            flags2 = (if invisible a \<noteq> 0 then js_or flags1 8 else flags1);
            flags3 = (if lacing a \<noteq> 0 then js_or flags2 (js_shl (lacing a) 1) else flags2);
            flags = (if discardable a \<noteq> 0 then js_or flags3 1 else flags3);
            header = map fromCharCode
              [js_or (trackNum a) 0x80, js_shr (timecode a) 8, js_and (timecode a) 0xff, flags]
        in Inr (header @ frame a))"

section \<open>FrameDecoder\<close>

text \<open>\<open>str.indexOf(pat)\<close>: the index of the first occurrence, or -1.\<close>

fun indexOfFrom :: "jsstring \<Rightarrow> jsstring \<Rightarrow> nat \<Rightarrow> int" where
  "indexOfFrom [] pat k = (if pat = [] then int k else - 1)"
| "indexOfFrom (c # s) pat k =
     (if take (length pat) (c # s) = pat then int k else indexOfFrom s pat (Suc k))"

definition indexOf :: "jsstring \<Rightarrow> jsstring \<Rightarrow> int" where
  "indexOf str pat = indexOfFrom str pat 0"

text \<open>\<open>str.charCodeAt(i)\<close>: \<open>None\<close> is NaN, the result for an index out of range.\<close>

definition charCodeAt :: "jsstring \<Rightarrow> int \<Rightarrow> nat option" where
  "charCodeAt str i = (if 0 \<le> i \<and> i < int (length str) then Some (str ! nat i) else None)"

text \<open>A bitwise operator reads NaN as 0.\<close>

definition operand :: "nat option \<Rightarrow> int" where
  "operand v = (case v of None \<Rightarrow> 0 | Some c \<Rightarrow> int c)"

text \<open>\<open>str.slice(start)\<close>: a negative start counts from the end.\<close>

definition jsSlice :: "jsstring \<Rightarrow> int \<Rightarrow> jsstring" where
  "jsSlice str start =
     (if start < 0 then drop (nat (max (int (length str) + start) 0)) str
      else drop (nat start) str)"

definition keyframeMarker :: jsstring where
  "keyframeMarker = [0x9d, 0x01, 0x2a]"

text \<open>The result of \<open>parseRIFF\<close>: an object from chunk ids to arrays whose members are
  strings (leaf chunks) or nested objects (the \<open>RIFF\<close> and \<open>LIST\<close> containers).\<close>

datatype riff_item = Leaf jsstring | Container "(jsstring \<times> riff_item list) list"

type_synonym riff_chunks = "(jsstring \<times> riff_item list) list"

record webp =
  width :: int
  height :: int
  data :: jsstring
  riff :: riff_chunks
  horizontalScale :: int
  verticalScale :: int

text \<open>\<open>parseWebP\<close> (lines 241-266).  \<open>riff.RIFF[0].WEBP[0]\<close> raises a TypeError when a
  step of the path is missing or is not a string at the end.\<close>

definition decodeHeader :: "riff_chunks \<Rightarrow> jsstring \<Rightarrow> webp" where
  "decodeHeader r VP8 =
     (let frameStart = indexOf VP8 keyframeMarker;
          bytes = map (\<lambda>i. charCodeAt VP8 (frameStart + 3 + int i)) [0 ..< 4];
          tmp1 = js_or (js_shl (operand (bytes ! 1)) 8) (operand (bytes ! 0));
          tmp2 = js_or (js_shl (operand (bytes ! 3)) 8) (operand (bytes ! 2))
      in \<lparr> width = js_and tmp1 0x3FFF, height = js_and tmp2 0x3FFF, data = VP8, riff = r,
           horizontalScale = js_shr tmp1 14, verticalScale = js_shr tmp2 14 \<rparr>)"

definition parseWebP :: "riff_chunks \<Rightarrow> error + webp" where
  "parseWebP r =
     (case map_of r (map of_char ''RIFF'') of
        Some (Container sub # _) \<Rightarrow>
          (case map_of sub (map of_char ''WEBP'') of
             Some (Leaf VP8 # _) \<Rightarrow> Inr (decodeHeader r VP8)
           | _ \<Rightarrow> Inl TypeError)
      | _ \<Rightarrow> Inl TypeError)"

section \<open>Muxer\<close>

definition CLUSTER_MAX_DURATION :: int where
  "CLUSTER_MAX_DURATION = 30000"

definition TIMECODE_SCALE :: int where
  "TIMECODE_SCALE = 1000000"

text \<open>A frame handed to \<open>toWebM\<close> is a \<open>parseWebP\<close> result with a \<open>duration\<close> added
  (lines 502-504 and 525-527).  The duration is a number of milliseconds and an integer
  here, as in the specification's frame type.  \<open>toWebM\<close> does not require it: its two
  callers assign \<open>1000 / fps\<close> (lines 425 and 526), which is not an integer for every
  rate.  Such a duration is an IEEE double whose sums are rounded at every addition; it
  is outside this embedding, and the lines that round (353, 381 and 391) change a value
  only there.\<close>

record frame = webp +
  duration :: int

record frame_info =
  totalDuration :: int
  frameWidth :: int
  frameHeight :: int

text \<open>\<open>validateFrames\<close> (lines 30-57).  The loop starts at index 1; the error names frame
  \<open>i + 1\<close>.\<close>

fun validateLoop :: "nat \<Rightarrow> frame list \<Rightarrow> int \<Rightarrow> int \<Rightarrow> int \<Rightarrow> error + int" where
  "validateLoop i [] w h tot = Inr tot"
| "validateLoop i (fr # rest) w h tot =
     (if width fr \<noteq> w then Inl (InconsistentWidth (i + 1))
      else if height fr \<noteq> h then Inl (InconsistentHeight (i + 1))
      else if duration fr < 0 \<or> duration fr > 0x7fff then Inl (InvalidDuration (i + 1))
      else validateLoop (i + 1) rest w h (tot + duration fr))"

definition validateFrames :: "frame list \<Rightarrow> error + frame_info" where
  "validateFrames frames =
     (case frames of
        [] \<Rightarrow> Inl NoFrames
      | f0 # rest \<Rightarrow>
          (case validateLoop 1 rest (width f0) (height f0) (duration f0) of
             Inl e \<Rightarrow> Inl e
           | Inr tot \<Rightarrow>
               Inr \<lparr> totalDuration = tot, frameWidth = width f0, frameHeight = height f0 \<rparr>))"

text \<open>\<open>doubleToString\<close> (lines 112-119): the eight bytes of the IEEE-754 binary64 value,
  most significant first.  The encoding below is exact for every integer of magnitude
  below \<open>2 ^ 53\<close>; above that the fraction is truncated where the platform rounds.\<close>

definition float64Bits :: "int \<Rightarrow> int" where
  "float64Bits n =
     (if n = 0 then 0
      else
        let a = \<bar>n\<bar>;
            e = length (binDigits (nat a)) - 1;
            frac = (if e \<le> 52 then (a - 2 ^ e) * 2 ^ (52 - e) else (a - 2 ^ e) div 2 ^ (e - 52))
        in (if n < 0 then 2 ^ 63 else 0) + (int e + 1023) * 2 ^ 52 + frac)"

definition doubleToString :: "int \<Rightarrow> jsstring" where
  "doubleToString num = map (\<lambda>k. nat ((float64Bits num div 256 ^ (7 - k)) mod 256)) [0 ..< 8]"

definition ascii :: "string \<Rightarrow> jsstring" where
  "ascii s = map of_char s"

text \<open>\<open>createEBMLHeader\<close>, \<open>createSegmentInfo\<close>, \<open>createTracks\<close> (lines 271-327).\<close>

definition createEBMLHeader :: "frame_info \<Rightarrow> element" where
  "createEBMLHeader info =
     Typed 0x1a45dfa3 (Children
       [Typed 0x4286 (Num 1) None,
        Typed 0x42f7 (Num 1) None,
        Typed 0x42f2 (Num 4) None,
        Typed 0x42f3 (Num 8) None,
        Typed 0x4282 (Str (ascii ''webm'')) None,
        Typed 0x4287 (Num 2) None,
        Typed 0x4285 (Num 2) None]) None"

definition createSegmentInfo :: "int \<Rightarrow> element" where
  "createSegmentInfo dur =
     Typed 0x1549a966 (Children
       [Typed 0x2ad7b1 (Num TIMECODE_SCALE) None,
        Typed 0x4d80 (Str (ascii ''whammy'')) None,
        Typed 0x5741 (Str (ascii ''whammy'')) None,
        Typed 0x4489 (Str (doubleToString dur)) None]) None"

definition createTracks :: "int \<Rightarrow> int \<Rightarrow> element" where
  "createTracks w h =
     Typed 0x1654ae6b (Children
       [Typed 0xae (Children
          [Typed 0xd7 (Num 1) None,
           Typed 0x73c5 (Num 1) None,
           Typed 0x9c (Num 0) None,
           Typed 0x22b59c (Str (ascii ''und'')) None,
           Typed 0x86 (Str (ascii ''V_VP8'')) None,
           Typed 0x258688 (Str (ascii ''VP8'')) None,
           Typed 0x83 (Num 1) None,
           Typed 0xe0 (Children
             [Typed 0xb0 (Num w) None,
              Typed 0xba (Num h) None]) None]) None]) None"

text \<open>The cue point pushed at the head of each iteration of the cluster loop
  (lines 350-364).\<close>

definition cuePoint :: "int \<Rightarrow> element" where
  "cuePoint clusterTimecode =
     Typed 0xbb (Children
       [Typed 0xb3 (Num (Math_round (of_int clusterTimecode))) None,
        Typed 0xb7 (Children
          [Typed 0xf7 (Num 1) None,
           Typed 0xf1 (Num 0) (Some 8)]) None]) None"

text \<open>The do-while loop of lines 370-374: the body runs for frame \<open>fr\<close> first, and again
  while frames remain and the cluster's duration is below the maximum.  The result is
  the cluster's frames, its duration and the frames not yet consumed.\<close>

fun collectFrames :: "frame list \<Rightarrow> int \<Rightarrow> frame \<Rightarrow> frame list
    \<Rightarrow> frame list \<times> int \<times> frame list" where
  "collectFrames clusterFrames clusterDuration fr [] =
     (clusterFrames @ [fr], clusterDuration + duration fr, [])"
| "collectFrames clusterFrames clusterDuration fr (nxt # rest) =
     (if clusterDuration + duration fr < CLUSTER_MAX_DURATION
      then collectFrames (clusterFrames @ [fr]) (clusterDuration + duration fr) nxt rest
      else (clusterFrames @ [fr], clusterDuration + duration fr, nxt # rest))"

text \<open>The \<open>map\<close> of lines 383-395, with its counter \<open>clusterCounter\<close>.\<close>

fun makeBlocks :: "int \<Rightarrow> frame list \<Rightarrow> error + element list" where
  "makeBlocks clusterCounter [] = Inr []"
| "makeBlocks clusterCounter (wp # rest) =
     (case makeSimpleBlock
             \<lparr> trackNum = 1, timecode = Math_round (of_int clusterCounter), keyframe = 1,
               invisible = 0,
               lacing = 0, discardable = 0,
               frame = jsSlice (data wp) (indexOf (data wp) keyframeMarker - 3) \<rparr> of
        Inl e \<Rightarrow> Inl e
      | Inr block \<Rightarrow>
          (case makeBlocks (clusterCounter + duration wp) rest of
             Inl e \<Rightarrow> Inl e
           | Inr blocks \<Rightarrow> Inr (Typed 0xa3 (Str block) None # blocks)))"

text \<open>The cluster loop (lines 349-401).  It returns the cue points pushed to \<open>cues.data\<close>
  and the clusters pushed to \<open>segment.data\<close>, both in the order of the pushes.\<close>

function clusterLoop :: "frame list \<Rightarrow> int \<Rightarrow> error + element list \<times> element list" where
  "clusterLoop [] clusterTimecode = Inr ([], [])"
| "clusterLoop (fr # rest) clusterTimecode =
     (case collectFrames [] 0 fr rest of
        (clusterFrames, clusterDuration, remaining) \<Rightarrow>
          (case makeBlocks 0 clusterFrames of
             Inl e \<Rightarrow> Inl e
           | Inr blocks \<Rightarrow>
               (case clusterLoop remaining (clusterTimecode + clusterDuration) of
                  Inl e \<Rightarrow> Inl e
                | Inr (cps, clusters) \<Rightarrow>
                    Inr (cuePoint clusterTimecode # cps,
                         Typed 0x1f43b675
                           (Children (Typed 0xe7 (Num (Math_round (of_int clusterTimecode))) None
                                      # blocks)) None
                         # clusters))))"
  by pat_completeness auto

termination clusterLoop
proof -
  have len: "length (snd (snd (collectFrames cf cd f r))) \<le> length r" for cf cd f r
    by (induction cf cd f r rule: collectFrames.induct) (auto simp: le_SucI)
  show ?thesis
    apply (relation "measure (\<lambda>(frames, t). length frames)")
     apply simp
    apply (simp add: less_Suc_eq_le)
    apply (metis len snd_conv)
    done
qed

text \<open>The assignment \<open>cues.data[k].data[1].data[1].data = position\<close> of line 407.
  \<open>cues\<close> is the object at \<open>segment.data[2]\<close>, so the assignment is an update of that
  member of \<open>segment.data\<close>.  A path that does not exist raises a TypeError.\<close>

fun setClusterPosition :: "element \<Rightarrow> int \<Rightarrow> error + element" where
  "setClusterPosition
     (Typed pid (Children (t # Typed tid (Children (tr # Typed oid d os # r2)) ts # r1)) ps)
     position =
     Inr (Typed pid
           (Children (t # Typed tid (Children (tr # Typed oid (Num position) os # r2)) ts # r1))
           ps)"
| "setClusterPosition e position = Inl TypeError"

definition setCuePosition :: "element list \<Rightarrow> nat \<Rightarrow> int \<Rightarrow> error + element list" where
  "setCuePosition sd k position =
     (if 2 < length sd then
        (case sd ! 2 of
           Typed cid (Children cps) cs \<Rightarrow>
             (if k < length cps then
                (case setClusterPosition (cps ! k) position of
                   Inl e \<Rightarrow> Inl e
                 | Inr cp \<Rightarrow> Inr (sd[2 := Typed cid (Children (cps[k := cp])) cs]))
              else Inl TypeError)
         | _ \<Rightarrow> Inl TypeError)
      else Inl TypeError)"

text \<open>The position loop of lines 404-414 over \<open>segment.data\<close>.\<close>

function positionLoop :: "nat \<Rightarrow> int \<Rightarrow> element list \<Rightarrow> error + element list" where
  "positionLoop i position sd =
     (if i < length sd then
        (case (if i \<ge> 3 then setCuePosition sd (i - 3) position else Inr sd) of
           Inl e \<Rightarrow> Inl e
         | Inr sd1 \<Rightarrow>
             (case generateEBML [sd1 ! i] of
                Inl e \<Rightarrow> Inl e
              | Inr dat \<Rightarrow>
                  positionLoop (i + 1) (position + int (length dat))
                    (if i \<noteq> 2 then sd1[i := Raw dat] else sd1)))
      else Inr sd)"
  by pat_completeness auto

termination positionLoop
proof -
  have len: "setCuePosition sd k p = Inr sd1 \<Longrightarrow> length sd1 = length sd" for sd k p sd1
    by (auto simp: setCuePosition_def split: if_splits element.splits content.splits sum.splits)
  show ?thesis
    apply (relation "measure (\<lambda>(i, p, sd). length sd - i)")
     apply simp
    apply (auto split: if_splits dest: len)
    done
qed

declare positionLoop.simps [simp del]

text \<open>\<open>toWebM\<close> (lines 332-417), with \<open>outputAsArray = true\<close>.\<close>

definition toWebM :: "frame list \<Rightarrow> error + bytes" where
  "toWebM frames =
     (case validateFrames frames of
        Inl e \<Rightarrow> Inl e
      | Inr info \<Rightarrow>
          (case clusterLoop frames 0 of
             Inl e \<Rightarrow> Inl e
           | Inr (cps, clusters) \<Rightarrow>
               (case positionLoop 0 0
                       ([createSegmentInfo (totalDuration info),
                         createTracks (frameWidth info) (frameHeight info),
                         Typed 0x1c53bb6b (Children cps) None] @ clusters) of
                  Inl e \<Rightarrow> Inl e
                | Inr sd \<Rightarrow>
                    generateEBML
                      [createEBMLHeader info, Typed 0x18538067 (Children sd) None])))"

section \<open>Observations on the cluster loop\<close>

text \<open>The definitions of this section are not functions of the source.  They name what
  the cluster loop holds in its local variables, so that the claims can speak about it:
  \<open>framePayload\<close> is the expression of line 386, \<open>clusterList\<close> is the pair
  (\<open>clusterTimecode\<close>, \<open>clusterFrames\<close>) of each iteration of the loop of lines 349-401,
  \<open>blocksOf\<close> is the value of the \<open>map\<close> of lines 383-395 and \<open>clusterElement\<close> the object
  of lines 378-397.  The lemmas \<open>makeBlocks_eq\<close> and \<open>clusterLoop_eq\<close> below relate them to
  the embedded functions.  \<open>clusterBlocks\<close> and \<open>blockFrame\<close> read a cluster element and a
  block element back.\<close>

definition framePayload :: "frame \<Rightarrow> jsstring" where
  "framePayload wp = jsSlice (data wp) (indexOf (data wp) keyframeMarker - 3)"

function clusterList :: "frame list \<Rightarrow> int \<Rightarrow> (int \<times> frame list) list" where
  "clusterList [] clusterTimecode = []"
| "clusterList (fr # rest) clusterTimecode =
     (case collectFrames [] 0 fr rest of
        (clusterFrames, clusterDuration, remaining) \<Rightarrow>
          (clusterTimecode, clusterFrames)
          # clusterList remaining (clusterTimecode + clusterDuration))"
  by pat_completeness auto

termination clusterList
proof -
  have len: "length (snd (snd (collectFrames cf cd f r))) \<le> length r" for cf cd f r
    by (induction cf cd f r rule: collectFrames.induct) (auto simp: le_SucI)
  show ?thesis
    apply (relation "measure (\<lambda>(frames, t). length frames)")
     apply simp
    apply (simp add: less_Suc_eq_le)
    apply (metis len snd_conv)
    done
qed

definition clusterFramesList :: "frame list \<Rightarrow> frame list list" where
  "clusterFramesList frames = map snd (clusterList frames 0)"

definition blockHeader :: "int \<Rightarrow> jsstring" where
  "blockHeader tc = map fromCharCode [129, js_shr tc 8, js_and tc 0xff, 128]"

fun blocksOf :: "int \<Rightarrow> frame list \<Rightarrow> element list" where
  "blocksOf clusterCounter [] = []"
| "blocksOf clusterCounter (wp # rest) =
     Typed 0xa3 (Str (blockHeader (Math_round (of_int clusterCounter)) @ framePayload wp)) None
     # blocksOf (clusterCounter + duration wp) rest"

definition clusterElement :: "int \<times> frame list \<Rightarrow> element" where
  "clusterElement c =
     Typed 0x1f43b675
       (Children (Typed 0xe7 (Num (Math_round (of_int (fst c)))) None # blocksOf 0 (snd c))) None"

fun clusterBlocks :: "element \<Rightarrow> element list" where
  "clusterBlocks (Typed i (Children (t # blocks)) s) = blocks"
| "clusterBlocks e = []"

fun blockFrame :: "element \<Rightarrow> jsstring" where
  "blockFrame (Typed i (Str block) s) = drop 4 block"
| "blockFrame e = []"

text \<open>A frame used in the worked examples: a 64 x 64 key frame.\<close>

definition sampleFrame :: "int \<Rightarrow> frame" where
  "sampleFrame d =
     \<lparr> width = 64, height = 64, data = [0, 0, 0, 0x9d, 0x01, 0x2a, 0x40, 0, 0x40, 0],
       riff = [], horizontalScale = 0, verticalScale = 0, duration = d \<rparr>"

text \<open>A frame like \<open>sampleFrame\<close> whose bitstream continues with \<open>n\<close> zero bytes.\<close>

definition bigFrame :: "nat \<Rightarrow> int \<Rightarrow> frame" where
  "bigFrame n d =
     \<lparr> width = 64, height = 64,
       data = [0, 0, 0, 0x9d, 0x01, 0x2a, 0x40, 0, 0x40, 0] @ replicate n 0,
       riff = [], horizontalScale = 0, verticalScale = 0, duration = d \<rparr>"

section \<open>Observations on the position loop\<close>

text \<open>The definitions of this section are not functions of the source either.
  \<open>cuePointAt (t, p)\<close> is the cue point object of lines 350-364 with the time \<open>t\<close> and
  with \<open>p\<close> in its \<open>CueClusterPosition\<close>, so that \<open>cuePoint t\<close> is \<open>cuePointAt (t, 0)\<close> and
  the assignment of line 407 turns \<open>cuePointAt (t, q)\<close> into \<open>cuePointAt (t, p)\<close>.
  \<open>fillPositions\<close> is the list of (time, position) pairs of \<open>cues.data\<close> after the position
  loop has passed the clusters whose encodings are \<open>rs\<close>, starting at cue \<open>k\<close> with the
  position \<open>pos\<close>.  \<open>cueClusterPosition\<close> reads the position of a cue point back, along the
  path of line 407.\<close>

definition cuePointAt :: "int \<times> int \<Rightarrow> element" where
  "cuePointAt tp =
     Typed 0xbb (Children
       [Typed 0xb3 (Num (fst tp)) None,
        Typed 0xb7 (Children
          [Typed 0xf7 (Num 1) None,
           Typed 0xf1 (Num (snd tp)) (Some 8)]) None]) None"

fun fillPositions :: "(int \<times> int) list \<Rightarrow> nat \<Rightarrow> int \<Rightarrow> bytes list \<Rightarrow> (int \<times> int) list" where
  "fillPositions tps k pos [] = tps"
| "fillPositions tps k pos (r # rs) =
     fillPositions (tps[k := (fst (tps ! k), pos)]) (Suc k) (pos + int (length r)) rs"

fun cueClusterPosition :: "element \<Rightarrow> int option" where
  "cueClusterPosition
     (Typed pid (Children (t # Typed tid (Children (tr # Typed oid (Num p) os # r2)) ts # r1)) ps)
     = Some p"
| "cueClusterPosition e = None"

section \<open>Reference notions taken from the specification\<close>

text \<open>The value of a byte sequence read big-endian.  This is the reference decoder for
  \<open>fixedBigEndian\<close> and the value part of a size descriptor; it follows the
  specification's words, not the source.\<close>

definition bigEndianValue :: "bytes \<Rightarrow> nat" where
  "bigEndianValue bs = foldl (\<lambda>a b. 256 * a + b) 0 bs"

text \<open>Reference decoder of an EBML size descriptor, from the specification's description
  of \<open>vintSize\<close>: the number of leading zero bits of the first byte is the byte count
  minus one, the next bit is the marker, and the remaining bits are the length.\<close>

definition leadingZeros8 :: "nat \<Rightarrow> nat" where
  "leadingZeros8 b =
     (if b \<ge> 128 then 0 else if b \<ge> 64 then 1 else if b \<ge> 32 then 2
      else if b \<ge> 16 then 3 else if b \<ge> 8 then 4 else if b \<ge> 4 then 5
      else if b \<ge> 2 then 6 else if b \<ge> 1 then 7 else 8)"

definition refVintDecode :: "bytes \<Rightarrow> nat option" where
  "refVintDecode bs =
     (case bs of
        [] \<Rightarrow> None
      | b # _ \<Rightarrow>
          (let n = leadingZeros8 b + 1
           in if n > 8 \<or> length bs \<noteq> n then None
              else Some (bigEndianValue bs - 2 ^ (7 * n))))"

text \<open>The offset of cluster \<open>n\<close> in the data of the Segment, in the specification's words:
  the sum of the encoded lengths of the Segment children before it, which are Info,
  Tracks, Cues and the clusters 0 to \<open>n - 1\<close>.\<close>

definition segmentOffset :: "bytes \<Rightarrow> bytes \<Rightarrow> bytes \<Rightarrow> bytes list \<Rightarrow> nat \<Rightarrow> int" where
  "segmentOffset rI rT rQ rCs n =
     int (length rI + length rT + length rQ + length (concat (take n rCs)))"

section \<open>Facts about the JavaScript operators\<close>

lemma Math_round_of_int [simp]: "Math_round (of_int n) = n"
proof -
  have "\<lfloor>(of_int n :: rat) + 1 / 2\<rfloor> = n + \<lfloor>1 / 2 :: rat\<rfloor>"
    by (rule int_add_floor [symmetric])
  moreover have "\<lfloor>1 / 2 :: rat\<rfloor> = 0"
    by (rule floor_unique) simp_all
  ultimately show ?thesis by (simp add: Math_round_def)
qed

lemma Math_round_numeral [simp]:
  "Math_round 0 = 0" "Math_round 1 = 1" "Math_round (numeral k) = numeral k"
  "Math_round (- 1) = - 1" "Math_round (- numeral k) = - numeral k"
  using Math_round_of_int [of 0] Math_round_of_int [of 1] Math_round_of_int [of "numeral k"]
    Math_round_of_int [of "- 1"] Math_round_of_int [of "- numeral k"]
  by simp_all

lemma toInt32_range: "- (2 ^ 31) \<le> toInt32 x \<and> toInt32 x < 2 ^ 31"
  by (simp add: toInt32_def)

lemma toInt32_id: "- (2 ^ 31) \<le> x \<Longrightarrow> x < 2 ^ 31 \<Longrightarrow> toInt32 x = x"
  by (simp add: toInt32_def mod_pos_pos_trivial)

lemma and_255_mod: "(x::int) AND 255 = x mod 256"
proof -
  have "x AND mask 8 = x mod 2 ^ 8"
    by (simp only: take_bit_eq_mask [symmetric] take_bit_eq_mod)
  then show ?thesis by (simp add: mask_eq_exp_minus_1)
qed

lemma js_and_255: "js_and x 255 = toInt32 x mod 256"
  by (simp add: js_and_def toInt32_id and_255_mod)

lemma js_shr_8: "js_shr x 8 = toInt32 x div 256"
  by (simp add: js_shr_def drop_bit_eq_div)

lemma toInt32_div_256: "toInt32 (toInt32 x div 256) = toInt32 x div 256"
proof -
  have "- (2 ^ 31) \<le> toInt32 x div 256" "toInt32 x div 256 < 2 ^ 31"
    using toInt32_range [of x] by auto
  then show ?thesis by (simp add: toInt32_id)
qed

lemma or_push_bit_add:
  fixes x :: int
  assumes "0 \<le> x" "x < 2 ^ k"
  shows "x OR push_bit k y = x + push_bit k y"
proof -
  have x: "take_bit k x = x"
    using assms by (simp add: take_bit_int_eq_self)
  have "take_bit k x + push_bit k y = take_bit k x OR push_bit k y"
    by (rule disjunctive_add) (auto simp: bit_take_bit_iff bit_push_bit_iff)
  then show ?thesis by (simp add: x)
qed

lemma js_or_128:
  assumes "0 \<le> x" "x < 128"
  shows "js_or x 128 = 128 + x"
proof -
  have "x OR push_bit 7 1 = x + push_bit 7 1"
    by (rule or_push_bit_add) (use assms in auto)
  then show ?thesis
    using assms by (simp add: js_or_def toInt32_id)
qed

lemma replicate_numeral:
  "replicate (numeral k) x = x # replicate (pred_numeral k) x"
  by (simp add: numeral_eq_Suc)

section \<open>NumericCodec: fixed-width buffers\<close>

lemma length_numToFixedBuffer: "length (numToFixedBuffer n w) = w"
  by (induction w arbitrary: n) auto

lemma bytes_numToFixedBuffer: "b \<in> set (numToFixedBuffer n w) \<Longrightarrow> b < 256"
  by (induction w arbitrary: n) (auto simp: toUint8_def)

lemma bigEndianValue_snoc: "bigEndianValue (bs @ [b]) = 256 * bigEndianValue bs + b"
  by (simp add: bigEndianValue_def)

lemma bigEndianValue_numToFixedBuffer:
  "int (bigEndianValue (numToFixedBuffer n w)) = toInt32 n mod 256 ^ w"
proof (induction w arbitrary: n)
  case 0
  show ?case by (simp add: bigEndianValue_def)
next
  case (Suc w)
  have "int (bigEndianValue (numToFixedBuffer n (Suc w)))
        = 256 * (toInt32 n div 256 mod 256 ^ w) + toInt32 n mod 256"
    using Suc.IH [of "js_shr n 8"]
    by (simp add: bigEndianValue_snoc toInt32_div_256 js_and_255 toUint8_def js_shr_8)
  also have "\<dots> = toInt32 n mod 256 ^ Suc w"
    using zmod_zmult2_eq [of "256 ^ w" "toInt32 n" 256] by simp
  finally show ?case .
qed

lemma numToFixedBuffer_numeral:
  "numToFixedBuffer n (numeral k) =
     numToFixedBuffer (js_shr n 8) (pred_numeral k) @ [toUint8 (js_and n 0xff)]"
  by (simp add: numeral_eq_Suc)

lemmas js_eval = numToFixedBuffer_numeral js_shr_8 js_and_255 toInt32_def toUint8_def

text \<open>
  Claim C9, as the code has it.  \<open>numToFixedBuffer(n, w)\<close> returns exactly \<open>w\<close> bytes
  for every number \<open>n\<close> and every width \<open>w\<close>.  Read big-endian, the bytes are the value of
  \<open>n\<close> after JavaScript's conversion to a signed 32-bit integer, reduced modulo
  \<open>2 ^ (8 * w)\<close>; for \<open>0 \<le> n < 2 ^ 31\<close> that is \<open>n mod 2 ^ (8 * w)\<close>, the big-endian
  encoding of \<open>n\<close> truncated or zero-extended to \<open>w\<close> bytes.
\<close>

theorem numToFixedBuffer_width_and_value:
  "length (numToFixedBuffer n w) = w
   \<and> (\<forall>b \<in> set (numToFixedBuffer n w). b < 256)
   \<and> int (bigEndianValue (numToFixedBuffer n w)) = toInt32 n mod 2 ^ (8 * w)
   \<and> (0 \<le> n \<and> n < 2 ^ 31 \<longrightarrow>
        int (bigEndianValue (numToFixedBuffer n w)) = n mod 2 ^ (8 * w))"
proof -
  have p: "(256::int) ^ w = 2 ^ (8 * w)"
    by (simp add: power_mult)
  show ?thesis
    using bigEndianValue_numToFixedBuffer [of n w] length_numToFixedBuffer [of n w]
      bytes_numToFixedBuffer [of _ n w]
    by (auto simp: p toInt32_id)
qed

theorem numToFixedBuffer_width_and_value_witness:
  "(0::int) \<le> 300 \<and> (300::int) < 2 ^ 31
   \<and> numToFixedBuffer 300 8 = [0, 0, 0, 0, 0, 0, 1, 44]
   \<and> length (numToFixedBuffer 300 8) = 8
   \<and> int (bigEndianValue (numToFixedBuffer 300 8)) = 300 mod 2 ^ (8 * 8)"
  using numToFixedBuffer_width_and_value [of 300 8]
  by (simp add: js_eval)

text \<open>
  Claim C9 as stated fails for \<open>n = 2 ^ 31\<close>, which is representable in 64 bits: the
  operators \<open>&\<close> and \<open>>>\<close> work on the signed 32-bit value, so the four high bytes of
  the 8-byte result are \<open>0xff\<close> and the bytes are not the big-endian encoding of \<open>n\<close>.
\<close>

theorem numToFixedBuffer_sign_extends:
  "(2147483648::int) < 2 ^ 64
   \<and> numToFixedBuffer 2147483648 8 = [255, 255, 255, 255, 128, 0, 0, 0]
   \<and> int (bigEndianValue (numToFixedBuffer 2147483648 8)) \<noteq> 2147483648 mod 2 ^ (8 * 8)"
  by (simp add: js_eval bigEndianValue_def)

section \<open>NumericCodec: the size descriptor\<close>

lemmas vint_eval = vintSize_def ceilLog2.simps toString2_def binDigits.simps repeat0_def
  bitsToBuffer_def parseInt2_def isBinDigit_def binValue_def toUint8_def Let_def
  upt_rec [of "numeral _"] upt_rec [of 0] upt_rec [of "Suc _"] replicate_numeral

text \<open>
  Claim C1, evaluated on the code at the boundary lengths.  For a content of length 1
  the serializer emits the two bytes \<open>01 01\<close>: the descriptor has seven leading zero
  bits, not (byte count - 1) = 1, the reference decoder rejects it, and the one-byte
  descriptor \<open>81\<close> already decodes to 1, so two bytes are not minimal.  From length 2 on
  the first byte is \<open>00\<close>, which no EBML reader accepts.  Length 0 raises a RangeError.
  The loss comes from \<open>'0'.repeat(n)\<close>, which yields \<open>n\<close> zeros, used with counts
  (\<open>zeroes * 7 + 7 + 1 - sizeStr.length\<close> and \<open>zeroes\<close>) that are one too large for it.
\<close>

theorem vintSize_boundary_lengths:
  "vintSize 1 = Inr [1, 1]
   \<and> leadingZeros8 1 = 7
   \<and> refVintDecode [1, 1] = None
   \<and> refVintDecode [129] = Some 1
   \<and> vintSize 0 = Inl RangeError
   \<and> vintSize 127 = Inr [0, 128, 127]
   \<and> vintSize 128 = Inr [0, 128, 128]
   \<and> vintSize 16383 = Inr [0, 64, 63, 255]
   \<and> vintSize 16384 = Inr [0, 64, 64, 0]
   \<and> refVintDecode [0, 128, 127] = None"
  by (simp add: vint_eval refVintDecode_def leadingZeros8_def bigEndianValue_def)

section \<open>BlockPacker\<close>

lemma js_or_numeral_eval:
  "js_or 0 128 = 128" "js_or 0 8 = 8" "js_or 128 8 = 136"
  "js_or 0 1 = 1" "js_or 128 1 = 129" "js_or 8 1 = 9" "js_or 136 1 = 137"
  "js_or 0 2 = 2" "js_or 128 2 = 130" "js_or 8 2 = 10" "js_or 136 2 = 138"
  "js_or 0 4 = 4" "js_or 128 4 = 132" "js_or 8 4 = 12" "js_or 136 4 = 140"
  "js_or 0 6 = 6" "js_or 128 6 = 134" "js_or 8 6 = 14" "js_or 136 6 = 142"
  "js_or 2 1 = 3" "js_or 130 1 = 131" "js_or 10 1 = 11" "js_or 138 1 = 139"
  "js_or 4 1 = 5" "js_or 132 1 = 133" "js_or 12 1 = 13" "js_or 140 1 = 141"
  "js_or 6 1 = 7" "js_or 134 1 = 135" "js_or 14 1 = 15" "js_or 142 1 = 143"
  by (simp_all add: js_or_def toInt32_def)

lemma js_shl_1_eval:
  "js_shl 1 (Suc 0) = 2" "js_shl 2 (Suc 0) = 4" "js_shl 3 (Suc 0) = 6"
  by (simp_all add: js_shl_def toInt32_def)

lemma flags_value:
  assumes "0 \<le> l" "l \<le> 3"
  shows "(let flags0 = 0;
            flags1 = (if k \<noteq> 0 then js_or flags0 128 else flags0);
            flags2 = (if i \<noteq> 0 then js_or flags1 8 else flags1);
            flags3 = (if l \<noteq> 0 then js_or flags2 (js_shl l 1) else flags2)
          in (if d \<noteq> (0::int) then js_or flags3 1 else flags3))
         = (if k \<noteq> (0::int) then 128 else 0) + (if i \<noteq> (0::int) then 8 else 0) + 2 * l
           + (if d \<noteq> 0 then 1 else 0)"
proof -
  from assms have "l = 0 \<or> l = 1 \<or> l = 2 \<or> l = 3" by auto
  then show ?thesis
    by (elim disjE) (simp_all add: Let_def js_or_numeral_eval js_shl_1_eval)
qed

lemma toInt32_mod_65536: "toInt32 x mod 65536 = x mod 65536"
proof -
  have "toInt32 x mod 65536 = ((x + 2 ^ 31) mod 2 ^ 32 - 2 ^ 31) mod 65536"
    by (simp add: toInt32_def)
  also have "\<dots> = ((x + 2 ^ 31) mod 2 ^ 32 mod 65536 - 2 ^ 31 mod 65536) mod 65536"
    by (simp only: mod_diff_eq)
  also have "(x + 2 ^ 31) mod 2 ^ 32 mod 65536 = (x + 2 ^ 31) mod 65536"
    by (rule mod_mod_cancel) simp
  also have "((x + 2 ^ 31) mod 65536 - 2 ^ 31 mod 65536) mod 65536 = (x + 2 ^ 31 - 2 ^ 31) mod 65536"
    by (simp only: mod_diff_eq)
  finally show ?thesis by simp
qed

lemma toInt32_mod_256: "toInt32 x mod 256 = x mod 256"
proof -
  have "toInt32 x mod 65536 mod 256 = x mod 65536 mod 256"
    by (simp only: toInt32_mod_65536)
  moreover have "y mod 65536 mod 256 = y mod 256" for y :: int
    by (rule mod_mod_cancel) simp
  ultimately show ?thesis by simp
qed

lemma div_256_mod_256: "(x div 256) mod 256 = (x mod 65536) div 256" for x :: int
proof -
  have "x mod (256 * 256) = 256 * (x div 256 mod 256) + x mod 256"
    by (rule zmod_zmult2_eq) simp
  then show ?thesis by simp
qed

lemma toInt32_high_byte: "(toInt32 x div 256) mod 256 = (x div 256) mod 256"
  by (simp add: div_256_mod_256 toInt32_mod_65536)

lemma fromCharCode_mod_256: "fromCharCode y mod 256 = nat (y mod 256)"
proof -
  have "nat (y mod 65536) mod 256 = nat (y mod 65536 mod 256)"
    by (simp add: nat_mod_distrib)
  also have "y mod 65536 mod 256 = y mod 256"
    by (rule mod_mod_cancel) simp
  finally show ?thesis by (simp add: fromCharCode_def)
qed

lemma makeSimpleBlock_chars:
  assumes "0 \<le> trackNum a" "trackNum a \<le> 127" "0 \<le> lacing a" "lacing a \<le> 3"
  shows "makeSimpleBlock a =
        Inr ([nat (128 + trackNum a), nat ((toInt32 (timecode a) div 256) mod 65536),
              nat (timecode a mod 256),
              nat ((if keyframe a \<noteq> 0 then 128 else 0) + (if invisible a \<noteq> 0 then 8 else 0)
                   + 2 * lacing a + (if discardable a \<noteq> 0 then 1 else 0))] @ frame a)"
proof -
  have tn: "js_or (trackNum a) 128 = 128 + trackNum a"
    using assms by (simp add: js_or_128)
  have fl: "(let flags0 = 0;
            flags1 = (if keyframe a \<noteq> 0 then js_or flags0 128 else flags0);
            flags2 = (if invisible a \<noteq> 0 then js_or flags1 8 else flags1);
            flags3 = (if lacing a \<noteq> 0 then js_or flags2 (js_shl (lacing a) 1) else flags2)
          in (if discardable a \<noteq> 0 then js_or flags3 1 else flags3))
         = (if keyframe a \<noteq> 0 then 128 else 0) + (if invisible a \<noteq> 0 then 8 else 0)
           + 2 * lacing a + (if discardable a \<noteq> 0 then 1 else 0)"
    using assms by (intro flags_value) auto
  have c1: "fromCharCode (128 + trackNum a) = nat (128 + trackNum a)"
    using assms by (simp add: fromCharCode_def)
  have c3: "fromCharCode (toInt32 (timecode a) mod 256) = nat (timecode a mod 256)"
    by (simp add: fromCharCode_def toInt32_mod_256)
  have c4: "fromCharCode ((if keyframe a \<noteq> 0 then 128 else 0) + (if invisible a \<noteq> 0 then 8 else 0)
           + 2 * lacing a + (if discardable a \<noteq> 0 then 1 else 0))
        = nat ((if keyframe a \<noteq> 0 then 128 else 0) + (if invisible a \<noteq> 0 then 8 else 0)
           + 2 * lacing a + (if discardable a \<noteq> 0 then 1 else 0))"
    using assms by (simp add: fromCharCode_def)
  have c2: "fromCharCode (toInt32 (timecode a) div 256)
      = nat ((toInt32 (timecode a) div 256) mod 65536)"
    by (simp add: fromCharCode_def)
  show ?thesis
    using assms fl unfolding makeSimpleBlock_def
    by (simp add: Let_def tn js_shr_8 js_and_255 c1 c2 c3 c4 del: One_nat_def)
qed

text \<open>
  Claim C5, as the code has it.  \<open>makeSimpleBlock\<close> fails exactly when \<open>trackNum > 127\<close>.
  When it succeeds the result is a string of four header characters followed by the
  frame unchanged.  For a track number in 0..127 and a lacing mode of two bits the
  characters are \<open>0x80 | trackNum\<close>, the code unit of \<open>timecode >> 8\<close>, the low byte of
  the timecode and the flags byte (keyframe = 128, invisible = 8, lacing mode in bits
  1-2, discardable = 1).  The bytes that \<open>strToBuffer\<close> stores for these characters are
  the track byte, the high and the low byte of the timecode in two's complement and the
  flags byte.  When the timecode is in 0..65535 the second character is itself the high
  byte, and the string is the four header bytes followed by the frame.
\<close>

theorem makeSimpleBlock_header_and_frame:
  "((\<exists>e. makeSimpleBlock a = Inl e) \<longleftrightarrow> trackNum a > 127)
   \<and> (trackNum a \<le> 127 \<longrightarrow>
        (\<exists>header. length header = 4 \<and> makeSimpleBlock a = Inr (header @ frame a)))
   \<and> (0 \<le> trackNum a \<and> trackNum a \<le> 127 \<and> 0 \<le> lacing a \<and> lacing a \<le> 3 \<longrightarrow>
        makeSimpleBlock a =
          Inr ([nat (128 + trackNum a), nat ((toInt32 (timecode a) div 256) mod 65536),
                nat (timecode a mod 256),
                nat ((if keyframe a \<noteq> 0 then 128 else 0) + (if invisible a \<noteq> 0 then 8 else 0)
                     + 2 * lacing a + (if discardable a \<noteq> 0 then 1 else 0))] @ frame a)
        \<and> (\<exists>block. makeSimpleBlock a = Inr block
              \<and> strToBuffer block =
                  [nat (128 + trackNum a), nat ((timecode a div 256) mod 256),
                   nat (timecode a mod 256),
                   nat ((if keyframe a \<noteq> 0 then 128 else 0) + (if invisible a \<noteq> 0 then 8 else 0)
                        + 2 * lacing a + (if discardable a \<noteq> 0 then 1 else 0))]
                  @ strToBuffer (frame a))
        \<and> (0 \<le> timecode a \<and> timecode a < 65536 \<longrightarrow>
             makeSimpleBlock a =
               Inr ([nat (128 + trackNum a), nat (timecode a div 256), nat (timecode a mod 256),
                     nat ((if keyframe a \<noteq> 0 then 128 else 0)
                          + (if invisible a \<noteq> 0 then 8 else 0)
                          + 2 * lacing a + (if discardable a \<noteq> 0 then 1 else 0))] @ frame a)))"
proof -
  let ?fl = "(if keyframe a \<noteq> 0 then 128 else 0) + (if invisible a \<noteq> 0 then 8 else 0)
                     + 2 * lacing a + (if discardable a \<noteq> 0 then 1 else (0::int))"
  have fail: "(\<exists>e. makeSimpleBlock a = Inl e) \<longleftrightarrow> trackNum a > 127"
    by (simp add: makeSimpleBlock_def Let_def)
  have shape: "\<exists>header. length header = 4 \<and> makeSimpleBlock a = Inr (header @ frame a)"
    if "trackNum a \<le> 127"
    using that by (simp add: makeSimpleBlock_def Let_def)
  have chars: "makeSimpleBlock a =
          Inr ([nat (128 + trackNum a), nat ((toInt32 (timecode a) div 256) mod 65536),
                nat (timecode a mod 256), nat ?fl] @ frame a)"
    if "0 \<le> trackNum a" "trackNum a \<le> 127" "0 \<le> lacing a" "lacing a \<le> 3"
    using that by (rule makeSimpleBlock_chars)
  have bytes: "\<exists>block. makeSimpleBlock a = Inr block
              \<and> strToBuffer block =
                  [nat (128 + trackNum a), nat ((timecode a div 256) mod 256),
                   nat (timecode a mod 256), nat ?fl] @ strToBuffer (frame a)"
    if h: "0 \<le> trackNum a" "trackNum a \<le> 127" "0 \<le> lacing a" "lacing a \<le> 3"
  proof -
    have b1: "nat (128 + trackNum a) mod 256 = nat (128 + trackNum a)"
      using h by simp
    have b2: "nat ((toInt32 (timecode a) div 256) mod 65536) mod 256
        = nat ((timecode a div 256) mod 256)"
      using fromCharCode_mod_256 [of "toInt32 (timecode a) div 256"]
      by (simp add: fromCharCode_def toInt32_high_byte)
    have b3: "nat (timecode a mod 256) mod 256 = nat (timecode a mod 256)"
      by (simp add: nat_mod_distrib [symmetric])
    have b4: "nat ?fl mod 256 = nat ?fl"
      using h by simp
    show ?thesis
      unfolding chars [OF h] by (simp add: strToBuffer_def b1 b2 b3 b4 del: One_nat_def)
  qed
  have small: "makeSimpleBlock a =
               Inr ([nat (128 + trackNum a), nat (timecode a div 256), nat (timecode a mod 256),
                     nat ?fl] @ frame a)"
    if h: "0 \<le> trackNum a" "trackNum a \<le> 127" "0 \<le> lacing a" "lacing a \<le> 3"
      and t: "0 \<le> timecode a" "timecode a < 65536"
  proof -
    have "toInt32 (timecode a) = timecode a" using t by (simp add: toInt32_id)
    moreover have "timecode a div 256 mod 65536 = timecode a div 256"
      using t by simp
    ultimately show ?thesis unfolding chars [OF h] by simp
  qed
  from fail shape chars bytes small show ?thesis by blast
qed

theorem makeSimpleBlock_header_and_frame_witness:
  "makeSimpleBlock \<lparr> trackNum = 127, timecode = 1000, keyframe = 1, invisible = 0,
       lacing = 2, discardable = 1, frame = [7, 8, 9] \<rparr>
     = Inr [255, 3, 232, 133, 7, 8, 9]
   \<and> (\<exists>e. makeSimpleBlock \<lparr> trackNum = 128, timecode = 1000, keyframe = 1, invisible = 0,
       lacing = 2, discardable = 1, frame = [7, 8, 9] \<rparr> = Inl e)
   \<and> (\<exists>block. makeSimpleBlock \<lparr> trackNum = 1, timecode = - 2, keyframe = 1, invisible = 0,
         lacing = 0, discardable = 0, frame = [7, 8, 9] \<rparr> = Inr block
       \<and> strToBuffer block = [129, 255, 254, 128, 7, 8, 9])"
  using makeSimpleBlock_header_and_frame
      [of "\<lparr> trackNum = 127, timecode = 1000, keyframe = 1, invisible = 0,
            lacing = 2, discardable = 1, frame = [7, 8, 9] \<rparr>"]
    makeSimpleBlock_header_and_frame
      [of "\<lparr> trackNum = 128, timecode = 1000, keyframe = 1, invisible = 0,
            lacing = 2, discardable = 1, frame = [7, 8, 9] \<rparr>"]
    makeSimpleBlock_header_and_frame
      [of "\<lparr> trackNum = 1, timecode = - 2, keyframe = 1, invisible = 0,
            lacing = 0, discardable = 0, frame = [7, 8, 9] \<rparr>"]
  by (simp add: strToBuffer_def toInt32_def)

text \<open>
  Claim C5 as stated fails: with the timecode -1 the call succeeds and the second
  character of the result is the code unit 65535 (line 196 applies no mask to
  \<open>timecode >> 8\<close>), which is not the high byte 255 of the timecode.
\<close>

theorem makeSimpleBlock_negative_timecode:
  "makeSimpleBlock \<lparr> trackNum = 1, timecode = - 1, keyframe = 1, invisible = 0,
       lacing = 0, discardable = 0, frame = [7, 8, 9] \<rparr>
     = Inr [129, 65535, 255, 128, 7, 8, 9]"
  by (simp add: makeSimpleBlock_def js_or_numeral_eval js_or_128 [of 1, simplified]
      js_shr_8 js_and_255 toInt32_def fromCharCode_def)

section \<open>FrameDecoder\<close>

lemma js_and_3FFF: "js_and x 0x3FFF = toInt32 x mod 16384"
proof -
  have "toInt32 x AND mask 14 = toInt32 x mod 2 ^ 14"
    by (simp only: take_bit_eq_mask [symmetric] take_bit_eq_mod)
  then show ?thesis by (simp add: js_and_def toInt32_id mask_eq_exp_minus_1)
qed

lemma js_shr_14: "js_shr x 14 = toInt32 x div 16384"
  by (simp add: js_shr_def drop_bit_eq_div)

lemma le_word16:
  assumes "b0 < 256" "b1 < 256"
  shows "js_or (js_shl (int b1) 8) (int b0) = int b0 + 256 * int b1"
proof -
  have s: "js_shl (int b1) 8 = push_bit 8 (int b1)"
    using assms by (simp add: js_shl_def toInt32_id push_bit_eq_mult)
  have "int b0 OR push_bit 8 (int b1) = int b0 + push_bit 8 (int b1)"
    by (rule or_push_bit_add) (use assms in auto)
  moreover have "toInt32 (push_bit 8 (int b1)) = push_bit 8 (int b1)"
    using assms by (simp add: toInt32_id push_bit_eq_mult)
  moreover have "toInt32 (int b0) = int b0"
    using assms by (simp add: toInt32_id)
  ultimately show ?thesis
    by (simp add: s js_or_def or.commute push_bit_eq_mult)
qed

lemma indexOfFrom_absent:
  "indexOfFrom s pat k = - 1 \<longleftrightarrow> \<not> (\<exists>pre post. s = pre @ pat @ post)"
proof (induction s arbitrary: k)
  case Nil
  show ?case by auto
next
  case (Cons c s)
  show ?case
  proof (cases "take (length pat) (c # s) = pat")
    case True
    then have "c # s = [] @ pat @ drop (length pat) (c # s)"
      by (metis append_Nil append_take_drop_id)
    then have "\<exists>pre post. c # s = pre @ pat @ post" by blast
    with True show ?thesis by simp
  next
    case False
    have "(\<exists>pre post. c # s = pre @ pat @ post) \<longleftrightarrow> (\<exists>pre post. s = pre @ pat @ post)"
    proof
      assume "\<exists>pre post. c # s = pre @ pat @ post"
      then obtain pre post where e: "c # s = pre @ pat @ post" by blast
      show "\<exists>pre post. s = pre @ pat @ post"
      proof (cases pre)
        case Nil
        with e have "take (length pat) (c # s) = pat" by simp
        with False show ?thesis by simp
      next
        case (Cons a pre')
        with e have "s = pre' @ pat @ post" by simp
        then show ?thesis by blast
      qed
    next
      assume "\<exists>pre post. s = pre @ pat @ post"
      then obtain pre post where "s = pre @ pat @ post" by blast
      then have "c # s = (c # pre) @ pat @ post" by simp
      then show "\<exists>pre post. c # s = pre @ pat @ post" by blast
    qed
    with False Cons.IH [of "Suc k"] show ?thesis by simp
  qed
qed

lemma indexOf_absent:
  "indexOf s pat = - 1 \<longleftrightarrow> \<not> (\<exists>pre post. s = pre @ pat @ post)"
  by (simp add: indexOf_def indexOfFrom_absent)

lemma indexOfFrom_first:
  "take (length pat) (drop n s) = pat \<Longrightarrow>
   (\<forall>j<n. take (length pat) (drop j s) \<noteq> pat) \<Longrightarrow>
   indexOfFrom s pat k = int (k + n)"
proof (induction s arbitrary: n k)
  case Nil
  then have "pat = []" by simp
  with Nil have "n = 0" by (cases n) auto
  with \<open>pat = []\<close> show ?case by simp
next
  case (Cons c s)
  show ?case
  proof (cases n)
    case 0
    with Cons.prems show ?thesis by simp
  next
    case (Suc m)
    with Cons.prems(2) have no: "take (length pat) (c # s) \<noteq> pat"
      by (metis drop0 zero_less_Suc)
    have "take (length pat) (drop m s) = pat"
      using Cons.prems(1) Suc by simp
    moreover have "\<forall>j<m. take (length pat) (drop j s) \<noteq> pat"
    proof (intro allI impI)
      fix j assume "j < m"
      then have "Suc j < n" using Suc by simp
      with Cons.prems(2) have "take (length pat) (drop (Suc j) (c # s)) \<noteq> pat" by blast
      then show "take (length pat) (drop j s) \<noteq> pat" by simp
    qed
    ultimately have "indexOfFrom s pat (Suc k) = int (Suc k + m)"
      by (rule Cons.IH)
    with no Suc show ?thesis by simp
  qed
qed

lemma indexOfFrom_found:
  "indexOfFrom s pat k \<noteq> - 1 \<Longrightarrow>
   \<exists>n. indexOfFrom s pat k = int (k + n) \<and> take (length pat) (drop n s) = pat
     \<and> (\<forall>j<n. take (length pat) (drop j s) \<noteq> pat)"
proof (induction s arbitrary: k)
  case Nil
  then have "pat = []" by (simp split: if_splits)
  then show ?case by simp
next
  case (Cons c s)
  show ?case
  proof (cases "take (length pat) (c # s) = pat")
    case True
    then have "indexOfFrom (c # s) pat k = int (k + 0)
        \<and> take (length pat) (drop 0 (c # s)) = pat
        \<and> (\<forall>j<0. take (length pat) (drop j (c # s)) \<noteq> pat)"
      by simp
    then show ?thesis by blast
  next
    case False
    with Cons.prems have "indexOfFrom s pat (Suc k) \<noteq> - 1" by simp
    from Cons.IH [OF this] obtain m where m:
      "indexOfFrom s pat (Suc k) = int (Suc k + m)" "take (length pat) (drop m s) = pat"
      "\<forall>j<m. take (length pat) (drop j s) \<noteq> pat"
      by blast
    have "\<forall>j<Suc m. take (length pat) (drop j (c # s)) \<noteq> pat"
    proof (intro allI impI)
      fix j assume j: "j < Suc m"
      show "take (length pat) (drop j (c # s)) \<noteq> pat"
      proof (cases j)
        case 0
        with False show ?thesis by simp
      next
        case (Suc i)
        with j m(3) show ?thesis by simp
      qed
    qed
    with m False have "indexOfFrom (c # s) pat k = int (k + Suc m)
        \<and> take (length pat) (drop (Suc m) (c # s)) = pat
        \<and> (\<forall>j<Suc m. take (length pat) (drop j (c # s)) \<noteq> pat)"
      by simp
    then show ?thesis by blast
  qed
qed

lemma indexOf_first:
  "take (length pat) (drop n s) = pat \<Longrightarrow>
   (\<forall>j<n. take (length pat) (drop j s) \<noteq> pat) \<Longrightarrow>
   indexOf s pat = int n"
  using indexOfFrom_first [of pat n s 0] by (simp add: indexOf_def)

lemma indexOf_found:
  "indexOf s pat \<noteq> - 1 \<Longrightarrow>
   \<exists>n. indexOf s pat = int n \<and> take (length pat) (drop n s) = pat
     \<and> (\<forall>j<n. take (length pat) (drop j s) \<noteq> pat)"
  using indexOfFrom_found [of s pat 0] by (simp add: indexOf_def)

text \<open>
  Claim C8.  Let the marker occur in the payload, and let its first occurrence be
  followed by at least four bytes: the payload is \<open>pre @ marker @ [b0, b1, b2, b3] @ post\<close>
  and the marker starts at no position before \<open>length pre\<close>.  Then \<open>parseWebP\<close> reads
  the four bytes after the marker as two little-endian 16-bit words: width and height
  are the low 14 bits of word 0 and word 1, the scale factors are their high 2 bits.
  The position of the marker is the one that \<open>indexOf\<close> computes (\<open>indexOf_first\<close>).
\<close>

theorem parseWebP_decodes_header:
  assumes "map_of r (map of_char ''RIFF'') = Some (Container sub # others)"
    and "map_of sub (map of_char ''WEBP'') = Some (Leaf VP8 # others')"
    and "VP8 = pre @ keyframeMarker @ [b0, b1, b2, b3] @ post"
    and "\<forall>j < length pre. take (length keyframeMarker) (drop j VP8) \<noteq> keyframeMarker"
    and "b0 < 256" "b1 < 256" "b2 < 256" "b3 < 256"
  shows "parseWebP r =
           Inr \<lparr> width = (int b0 + 256 * int b1) mod 16384,
                 height = (int b2 + 256 * int b3) mod 16384,
                 data = VP8, riff = r,
                 horizontalScale = (int b0 + 256 * int b1) div 16384,
                 verticalScale = (int b2 + 256 * int b3) div 16384 \<rparr>"
proof -
  have len: "length VP8 = length pre + 7 + length post"
    using assms(3) by (simp add: keyframeMarker_def)
  have "take (length keyframeMarker) (drop (length pre) VP8) = keyframeMarker"
    using assms(3) by simp
  then have idx: "indexOf VP8 keyframeMarker = int (length pre)"
    using assms(4) by (rule indexOf_first)
  have c: "charCodeAt VP8 (int (length pre) + 3 + int i) = Some ([b0, b1, b2, b3] ! i)"
    if "i < 4" for i
  proof -
    have n: "nat (int (length pre) + 3 + int i) = length pre + 3 + i" by arith
    have "(b0 # b1 # b2 # b3 # post) ! i = [b0, b1, b2, b3] ! i"
      using that by (auto simp: nth_Cons')
    then have v: "VP8 ! (length pre + 3 + i) = [b0, b1, b2, b3] ! i"
      using assms(3) by (simp add: keyframeMarker_def nth_append)
    have r: "0 \<le> int (length pre) + 3 + int i"
      "int (length pre) + 3 + int i < int (length VP8)"
      using that len by auto
    show ?thesis
      unfolding charCodeAt_def using r by (simp only: n v if_True simp_thms)
  qed
  have u: "[0 ..< 4] = [0, 1, 2, 3::nat]" by code_simp
  have bytes: "map (\<lambda>i. charCodeAt VP8 (int (length pre) + 3 + int i)) [0 ..< 4]
      = [Some b0, Some b1, Some b2, Some b3]"
    using c [of 0] c [of 1] c [of 2] c [of 3] by (simp add: u)
  have t1: "js_or (js_shl (int b1) 8) (int b0) = int b0 + 256 * int b1"
    using \<open>b0 < 256\<close> \<open>b1 < 256\<close> by (rule le_word16)
  have t2: "js_or (js_shl (int b3) 8) (int b2) = int b2 + 256 * int b3"
    using \<open>b2 < 256\<close> \<open>b3 < 256\<close> by (rule le_word16)
  have i1: "toInt32 (int b0 + 256 * int b1) = int b0 + 256 * int b1"
    using \<open>b0 < 256\<close> \<open>b1 < 256\<close> by (intro toInt32_id) auto
  have i2: "toInt32 (int b2 + 256 * int b3) = int b2 + 256 * int b3"
    using \<open>b2 < 256\<close> \<open>b3 < 256\<close> by (intro toInt32_id) auto
  have "decodeHeader r VP8 =
          \<lparr> width = (int b0 + 256 * int b1) mod 16384,
            height = (int b2 + 256 * int b3) mod 16384,
            data = VP8, riff = r,
            horizontalScale = (int b0 + 256 * int b1) div 16384,
            verticalScale = (int b2 + 256 * int b3) div 16384 \<rparr>"
    unfolding decodeHeader_def idx Let_def bytes
    by (simp add: operand_def t1 t2 js_and_3FFF js_shr_14 i1 i2)
  then show ?thesis
    using assms(1,2) by (simp add: parseWebP_def)
qed

theorem parseWebP_decodes_header_witness:
  "parseWebP [(map of_char ''RIFF'',
       [Container [(map of_char ''WEBP'',
          [Leaf [0x9d, 0x01, 0x00, 0x9d, 0x01, 0x2a, 0x40, 0x41, 0x30, 0x82, 0x9d, 0x01, 0x2a]])]])]
   = Inr \<lparr> width = 320, height = 560,
          data = [0x9d, 0x01, 0x00, 0x9d, 0x01, 0x2a, 0x40, 0x41, 0x30, 0x82, 0x9d, 0x01, 0x2a],
          riff = [(map of_char ''RIFF'',
       [Container [(map of_char ''WEBP'',
          [Leaf [0x9d, 0x01, 0x00, 0x9d, 0x01, 0x2a, 0x40, 0x41, 0x30, 0x82, 0x9d, 0x01, 0x2a]])]])],
          horizontalScale = 1, verticalScale = 2 \<rparr>"
proof -
  have first: "\<forall>j < length [0x9d, 0x01, 0x00 :: nat].
      take (length keyframeMarker)
        (drop j [0x9d, 0x01, 0x00, 0x9d, 0x01, 0x2a, 0x40, 0x41, 0x30, 0x82, 0x9d, 0x01, 0x2a])
      \<noteq> keyframeMarker"
    by (simp add: keyframeMarker_def All_less_Suc numeral_3_eq_3)
  show ?thesis
    using parseWebP_decodes_header [of "[(map of_char ''RIFF'',
       [Container [(map of_char ''WEBP'',
          [Leaf [0x9d, 0x01, 0x00, 0x9d, 0x01, 0x2a, 0x40, 0x41, 0x30, 0x82, 0x9d, 0x01, 0x2a]])]])]"
     "[(map of_char ''WEBP'',
          [Leaf [0x9d, 0x01, 0x00, 0x9d, 0x01, 0x2a, 0x40, 0x41, 0x30, 0x82, 0x9d, 0x01, 0x2a]])]"
     "[]"
     "[0x9d, 0x01, 0x00, 0x9d, 0x01, 0x2a, 0x40, 0x41, 0x30, 0x82, 0x9d, 0x01, 0x2a]" "[]"
     "[0x9d, 0x01, 0x00]" "0x40" "0x41" "0x30" "0x82" "[0x9d, 0x01, 0x2a]", OF _ _ _ first]
    by (simp add: keyframeMarker_def)
qed

text \<open>
  Claim C4, as the code has it.  \<open>parseWebP\<close> has no check of the result of \<open>indexOf\<close>.
  For a payload that does not contain the marker, \<open>indexOf\<close> is -1, nothing fails, and
  the result is decoded from the characters at the offsets 2, 3 (width word) and
  4, 5 (height word) of the payload, a missing character counting as 0.
\<close>

theorem parseWebP_without_marker:
  assumes "map_of r (map of_char ''RIFF'') = Some (Container sub # others)"
    and "map_of sub (map of_char ''WEBP'') = Some (Leaf VP8 # others')"
    and "\<not> (\<exists>pre post. VP8 = pre @ keyframeMarker @ post)"
  shows "parseWebP r =
           Inr \<lparr> width = js_and (js_or (js_shl (operand (charCodeAt VP8 3)) 8)
                                      (operand (charCodeAt VP8 2))) 0x3FFF,
                 height = js_and (js_or (js_shl (operand (charCodeAt VP8 5)) 8)
                                       (operand (charCodeAt VP8 4))) 0x3FFF,
                 data = VP8, riff = r,
                 horizontalScale = js_shr (js_or (js_shl (operand (charCodeAt VP8 3)) 8)
                                                (operand (charCodeAt VP8 2))) 14,
                 verticalScale = js_shr (js_or (js_shl (operand (charCodeAt VP8 5)) 8)
                                              (operand (charCodeAt VP8 4))) 14 \<rparr>"
proof -
  have i: "indexOf VP8 keyframeMarker = - 1"
    using assms(3) by (simp add: indexOf_absent)
  have u: "[0 ..< 4] = [0, 1, 2, 3::nat]" by code_simp
  have "decodeHeader r VP8 =
           \<lparr> width = js_and (js_or (js_shl (operand (charCodeAt VP8 3)) 8)
                                      (operand (charCodeAt VP8 2))) 0x3FFF,
                 height = js_and (js_or (js_shl (operand (charCodeAt VP8 5)) 8)
                                       (operand (charCodeAt VP8 4))) 0x3FFF,
                 data = VP8, riff = r,
                 horizontalScale = js_shr (js_or (js_shl (operand (charCodeAt VP8 3)) 8)
                                                (operand (charCodeAt VP8 2))) 14,
                 verticalScale = js_shr (js_or (js_shl (operand (charCodeAt VP8 5)) 8)
                                              (operand (charCodeAt VP8 4))) 14 \<rparr>"
    unfolding decodeHeader_def i Let_def u by simp
  then show ?thesis
    using assms(1,2) by (simp add: parseWebP_def)
qed

lemma sample_absent: "indexOf [9, 2, 3, 4, 5, 6] keyframeMarker = - 1"
  by (simp add: indexOf_def keyframeMarker_def)

lemma sample_words: "js_or (js_shl 4 8) 3 = 1027" "js_or (js_shl 6 8) 5 = 1541"
  by (simp_all add: le_word16 [of 3 4, simplified] le_word16 [of 5 6, simplified])

lemma decodeHeader_sample:
  "decodeHeader r [9, 2, 3, 4, 5, 6] =
     \<lparr> width = 1027, height = 1541, data = [9, 2, 3, 4, 5, 6], riff = r,
       horizontalScale = 0, verticalScale = 0 \<rparr>"
proof -
  have u: "[0 ..< 4] = [0, 1, 2, 3::nat]" by code_simp
  show ?thesis
    unfolding decodeHeader_def sample_absent Let_def u
    by (simp add: charCodeAt_def operand_def sample_words js_and_3FFF js_shr_14 toInt32_id)
qed

theorem parseWebP_without_marker_witness:
  "parseWebP [(map of_char ''RIFF'',
       [Container [(map of_char ''WEBP'', [Leaf [9, 2, 3, 4, 5, 6]])]])]
   = Inr \<lparr> width = 1027, height = 1541, data = [9, 2, 3, 4, 5, 6],
          riff = [(map of_char ''RIFF'',
            [Container [(map of_char ''WEBP'', [Leaf [9, 2, 3, 4, 5, 6]])]])],
          horizontalScale = 0, verticalScale = 0 \<rparr>"
proof -
  have a: "\<not> (\<exists>pre post. [9, 2, 3, 4, 5, 6] = pre @ keyframeMarker @ post)"
    using sample_absent by (simp add: indexOf_absent)
  show ?thesis
    using parseWebP_without_marker
      [of "[(map of_char ''RIFF'',
             [Container [(map of_char ''WEBP'', [Leaf [9, 2, 3, 4, 5, 6]])]])]"
          "[(map of_char ''WEBP'', [Leaf [9, 2, 3, 4, 5, 6]])]" "[]"
          "[9, 2, 3, 4, 5, 6]" "[]", OF _ _ a]
    by (simp add: charCodeAt_def operand_def sample_words js_and_3FFF js_shr_14 toInt32_id)
qed

text \<open>
  Claim C4 as stated fails: the payload \<open>09 02 03 04 05 06\<close> does not contain the
  marker (\<open>indexOf\<close> is -1), and \<open>parseWebP\<close> returns a result instead of failing.
\<close>

theorem parseWebP_no_not_found_error:
  "indexOf [9, 2, 3, 4, 5, 6] keyframeMarker = - 1
   \<and> parseWebP [(map of_char ''RIFF'',
         [Container [(map of_char ''WEBP'', [Leaf [9, 2, 3, 4, 5, 6]])]])]
     = Inr \<lparr> width = 1027, height = 1541, data = [9, 2, 3, 4, 5, 6],
            riff = [(map of_char ''RIFF'',
              [Container [(map of_char ''WEBP'', [Leaf [9, 2, 3, 4, 5, 6]])]])],
            horizontalScale = 0, verticalScale = 0 \<rparr>"
  by (simp add: sample_absent parseWebP_def decodeHeader_sample)

section \<open>Muxer: the cluster loop\<close>

lemma collectFrames_spec:
  "collectFrames cf cd f r = (cf', cd', r') \<Longrightarrow>
   \<exists>new. cf' = cf @ new \<and> new \<noteq> [] \<and> new @ r' = f # r
     \<and> cd' = cd + sum_list (map duration new)
     \<and> (r' \<noteq> [] \<longrightarrow> CLUSTER_MAX_DURATION \<le> cd')
     \<and> (\<forall>k. 0 < k \<and> k < length new \<longrightarrow>
            cd + sum_list (map duration (take k new)) < CLUSTER_MAX_DURATION)"
proof (induction cf cd f r arbitrary: cf' cd' r' rule: collectFrames.induct)
  case (1 cf cd fr)
  then show ?case by auto
next
  case (2 cf cd fr nxt rest)
  show ?case
  proof (cases "cd + duration fr < CLUSTER_MAX_DURATION")
    case True
    with "2.prems" have "collectFrames (cf @ [fr]) (cd + duration fr) nxt rest = (cf', cd', r')"
      by simp
    from "2.IH" [OF True this] obtain new where n:
      "cf' = (cf @ [fr]) @ new" "new \<noteq> []" "new @ r' = nxt # rest"
      "cd' = cd + duration fr + sum_list (map duration new)"
      "r' \<noteq> [] \<longrightarrow> CLUSTER_MAX_DURATION \<le> cd'"
      "\<forall>k. 0 < k \<and> k < length new \<longrightarrow>
            cd + duration fr + sum_list (map duration (take k new)) < CLUSTER_MAX_DURATION"
      by blast
    have "\<forall>k. 0 < k \<and> k < length (fr # new) \<longrightarrow>
            cd + sum_list (map duration (take k (fr # new))) < CLUSTER_MAX_DURATION"
    proof (intro allI impI)
      fix k assume k: "0 < k \<and> k < length (fr # new)"
      then obtain j where j: "k = Suc j" by (cases k) auto
      show "cd + sum_list (map duration (take k (fr # new))) < CLUSTER_MAX_DURATION"
      proof (cases j)
        case 0
        with j True show ?thesis by simp
      next
        case (Suc m)
        with j k n(6) have "cd + duration fr + sum_list (map duration (take j new)) < CLUSTER_MAX_DURATION"
          by auto
        with j show ?thesis by (simp add: add.assoc)
      qed
    qed
    with n show ?thesis
      by (intro exI [of _ "fr # new"]) (auto simp: add.assoc)
  next
    case False
    with "2.prems" show ?thesis
      by (intro exI [of _ "[fr]"]) auto
  qed
qed

lemma makeSimpleBlock_track1:
  "makeSimpleBlock \<lparr> trackNum = 1, timecode = c, keyframe = 1, invisible = 0,
       lacing = 0, discardable = 0, frame = fr \<rparr> = Inr (blockHeader c @ fr)"
  by (simp add: makeSimpleBlock_def blockHeader_def js_or_numeral_eval js_or_128 [of 1, simplified])

lemma makeBlocks_eq: "makeBlocks c cf = Inr (blocksOf c cf)"
  by (induction cf arbitrary: c) (simp_all add: makeSimpleBlock_track1 framePayload_def)

lemma clusterLoop_eq:
  "clusterLoop frames t =
     Inr (map (cuePoint \<circ> fst) (clusterList frames t), map clusterElement (clusterList frames t))"
proof (induction frames t rule: clusterList.induct)
  case (1 t)
  show ?case by simp
next
  case (2 fr rest t)
  obtain cf cd remaining where c: "collectFrames [] 0 fr rest = (cf, cd, remaining)"
    by (cases "collectFrames [] 0 fr rest") auto
  from "2.IH" [OF c [symmetric] refl]
  show ?case by (simp add: c makeBlocks_eq clusterElement_def)
qed

lemma clusterList_concat: "concat (map snd (clusterList frames t)) = frames"
proof (induction frames t rule: clusterList.induct)
  case (1 t)
  show ?case by simp
next
  case (2 fr rest t)
  obtain cf cd remaining where c: "collectFrames [] 0 fr rest = (cf, cd, remaining)"
    by (cases "collectFrames [] 0 fr rest") auto
  from collectFrames_spec [OF c] have "cf @ remaining = fr # rest" by auto
  with "2.IH" [OF c [symmetric] refl] show ?case by (simp add: c)
qed

lemma clusterList_clusters:
  "c \<in> set (clusterList frames t) \<Longrightarrow>
   snd c \<noteq> [] \<and>
   (\<forall>k. 0 < k \<and> k < length (snd c) \<longrightarrow>
      sum_list (map duration (take k (snd c))) < CLUSTER_MAX_DURATION)"
proof (induction frames t rule: clusterList.induct)
  case (1 t)
  then show ?case by simp
next
  case (2 fr rest t)
  obtain cf cd remaining where cl: "collectFrames [] 0 fr rest = (cf, cd, remaining)"
    by (cases "collectFrames [] 0 fr rest") auto
  from "2.prems" have "c = (t, cf) \<or> c \<in> set (clusterList remaining (t + cd))"
    by (simp add: cl)
  then show ?case
  proof
    assume "c = (t, cf)"
    with collectFrames_spec [OF cl] show ?thesis by auto
  next
    assume "c \<in> set (clusterList remaining (t + cd))"
    with "2.IH" [OF cl [symmetric] refl] show ?thesis by blast
  qed
qed

lemma clusterList_closed:
  "c \<in> set (butlast (clusterList frames t)) \<Longrightarrow>
   CLUSTER_MAX_DURATION \<le> sum_list (map duration (snd c))"
proof (induction frames t rule: clusterList.induct)
  case (1 t)
  then show ?case by simp
next
  case (2 fr rest t)
  obtain cf cd remaining where cl: "collectFrames [] 0 fr rest = (cf, cd, remaining)"
    by (cases "collectFrames [] 0 fr rest") auto
  show ?case
  proof (cases "clusterList remaining (t + cd) = []")
    case True
    with "2.prems" show ?thesis by (simp add: cl)
  next
    case False
    then have "remaining \<noteq> []" by auto
    with collectFrames_spec [OF cl] have big: "CLUSTER_MAX_DURATION \<le> sum_list (map duration cf)"
      by auto
    from "2.prems" False
    have "c = (t, cf) \<or> c \<in> set (butlast (clusterList remaining (t + cd)))"
      by (simp add: cl)
    then show ?thesis
    proof
      assume "c = (t, cf)"
      with big show ?thesis by simp
    next
      assume "c \<in> set (butlast (clusterList remaining (t + cd)))"
      with "2.IH" [OF cl [symmetric] refl] show ?thesis by blast
    qed
  qed
qed



lemma blockFrame_blocksOf: "map blockFrame (blocksOf c cf) = map framePayload cf"
  by (induction cf arbitrary: c) (auto simp: blockHeader_def)

lemma clusterBlocks_clusterElement: "clusterBlocks (clusterElement c) = blocksOf 0 (snd c)"
  by (simp add: clusterElement_def)

lemma blockHeader_bytes:
  assumes "0 \<le> c" "c < 65536"
  shows "blockHeader c = [129, nat (c div 256), nat (c mod 256), 128]"
proof -
  have "c div 256 < 256" using assms by simp
  then show ?thesis
    using assms
    by (simp add: blockHeader_def js_shr_8 js_and_255 toInt32_id fromCharCode_def)
qed

lemma concat_blocks:
  "concat (map (\<lambda>c. map blockFrame (blocksOf 0 (snd c))) cl) = map framePayload (concat (map snd cl))"
  by (induction cl) (auto simp: blockFrame_blocksOf)


lemma collect_eval:
  "collectFrames cf cd fr (nxt # rest) =
     (if cd + duration fr < 30000
      then collectFrames (cf @ [fr]) (cd + duration fr) nxt rest
      else (cf @ [fr], cd + duration fr, nxt # rest))"
  by (simp add: CLUSTER_MAX_DURATION_def)

lemma sample_partition:
  "clusterList [sampleFrame 10000, sampleFrame 10000, sampleFrame 10000, sampleFrame 10000] 0
   = [(0, [sampleFrame 10000, sampleFrame 10000, sampleFrame 10000]),
      (30000, [sampleFrame 10000])]"
  by (simp add: sampleFrame_def CLUSTER_MAX_DURATION_def)

text \<open>
  Claim C6.  Every cluster of the cluster loop has at least one frame; within a cluster
  the accumulated duration stays below 30000 ms before every frame but the first (so the
  cluster is not closed earlier), and every cluster but the last has reached 30000 ms
  (so it is closed exactly when the threshold is reached or the frames end).  The
  clusters are consecutive runs of the input, and the blocks of the cluster elements
  pushed by \<open>toWebM\<close>'s loop are the blocks of these runs.
\<close>

theorem clusters_close_at_threshold:
  "(\<forall>c \<in> set (clusterFramesList frames).
      c \<noteq> [] \<and>
      (\<forall>k. 0 < k \<and> k < length c \<longrightarrow>
         sum_list (map duration (take k c)) < CLUSTER_MAX_DURATION))
   \<and> (\<forall>c \<in> set (butlast (clusterFramesList frames)).
        CLUSTER_MAX_DURATION \<le> sum_list (map duration c))
   \<and> concat (clusterFramesList frames) = frames
   \<and> (\<exists>cps clusters. clusterLoop frames 0 = Inr (cps, clusters)
        \<and> map clusterBlocks clusters = map (blocksOf 0) (clusterFramesList frames))"
proof -
  have a: "\<forall>c \<in> set (clusterFramesList frames).
      c \<noteq> [] \<and>
      (\<forall>k. 0 < k \<and> k < length c \<longrightarrow>
         sum_list (map duration (take k c)) < CLUSTER_MAX_DURATION)"
    using clusterList_clusters [of _ frames 0]
    by (auto simp: clusterFramesList_def)
  have b: "\<forall>c \<in> set (butlast (clusterFramesList frames)).
        CLUSTER_MAX_DURATION \<le> sum_list (map duration c)"
    using clusterList_closed [of _ frames 0]
    by (auto simp: clusterFramesList_def map_butlast [symmetric])
  have c: "concat (clusterFramesList frames) = frames"
    by (simp add: clusterFramesList_def clusterList_concat)
  have d: "\<exists>cps clusters. clusterLoop frames 0 = Inr (cps, clusters)
        \<and> map clusterBlocks clusters = map (blocksOf 0) (clusterFramesList frames)"
    by (simp add: clusterLoop_eq clusterFramesList_def clusterBlocks_clusterElement comp_def)
  from a b c d show ?thesis by blast
qed

theorem clusters_close_at_threshold_witness:
  "clusterFramesList
     [sampleFrame 10000, sampleFrame 10000, sampleFrame 10000, sampleFrame 10000]
   = [sampleFrame 10000, sampleFrame 10000, sampleFrame 10000] # [sampleFrame 10000] # []
   \<and> CLUSTER_MAX_DURATION
       \<le> sum_list (map duration [sampleFrame 10000, sampleFrame 10000, sampleFrame 10000])
   \<and> sum_list (map duration (take 2 [sampleFrame 10000, sampleFrame 10000, sampleFrame 10000]))
       < CLUSTER_MAX_DURATION"
proof -
  have e: "clusterFramesList
     [sampleFrame 10000, sampleFrame 10000, sampleFrame 10000, sampleFrame 10000]
   = [sampleFrame 10000, sampleFrame 10000, sampleFrame 10000] # [sampleFrame 10000] # []"
    unfolding clusterFramesList_def sample_partition by simp
  from clusters_close_at_threshold
    [of "[sampleFrame 10000, sampleFrame 10000, sampleFrame 10000, sampleFrame 10000]"]
  show ?thesis
    unfolding e by (simp add: sampleFrame_def CLUSTER_MAX_DURATION_def)
qed

text \<open>
  Claim C10.  The concatenation of the clusters' frame sequences is the input frame
  list, and the SimpleBlocks of all cluster elements, taken in order, are one block per
  input frame with that frame's payload, in the input order.
\<close>

theorem clusters_keep_every_frame:
  "concat (clusterFramesList frames) = frames
   \<and> (\<exists>cps clusters.
        clusterLoop frames 0 = Inr (cps, clusters)
        \<and> length clusters = length (clusterFramesList frames)
        \<and> length cps = length clusters
        \<and> map clusterBlocks clusters = map (blocksOf 0) (clusterFramesList frames)
        \<and> length (concat (map clusterBlocks clusters)) = length frames
        \<and> map blockFrame (concat (map clusterBlocks clusters)) = map framePayload frames)"
proof -
  let ?cl = "clusterList frames 0"
  have c: "concat (clusterFramesList frames) = frames"
    by (simp add: clusterFramesList_def clusterList_concat)
  have b: "map clusterBlocks (map clusterElement ?cl) = map (blocksOf 0) (clusterFramesList frames)"
    by (simp add: clusterFramesList_def clusterBlocks_clusterElement comp_def)
  have f: "map blockFrame (concat (map clusterBlocks (map clusterElement ?cl)))
           = map framePayload frames"
    using concat_blocks [of ?cl]
    by (simp add: map_concat comp_def clusterBlocks_clusterElement clusterList_concat)
  have l: "length (concat (map clusterBlocks (map clusterElement ?cl))) = length frames"
    using arg_cong [OF f, of length] by simp
  show ?thesis
    using c b f l
    by (intro conjI exI [of _ "map (cuePoint \<circ> fst) ?cl"] exI [of _ "map clusterElement ?cl"])
       (simp_all add: clusterLoop_eq clusterFramesList_def)
qed

theorem clusters_keep_every_frame_witness:
  "concat (clusterFramesList
      [sampleFrame 10000, sampleFrame 10000, sampleFrame 10000, sampleFrame 10000])
     = [sampleFrame 10000, sampleFrame 10000, sampleFrame 10000, sampleFrame 10000]
   \<and> (\<exists>cps clusters.
         clusterLoop [sampleFrame 10000, sampleFrame 10000, sampleFrame 10000, sampleFrame 10000] 0
           = Inr (cps, clusters)
         \<and> length clusters = 2
         \<and> length cps = 2
         \<and> length (concat (map clusterBlocks clusters)) = 4
         \<and> map blockFrame (concat (map clusterBlocks clusters))
             = [framePayload (sampleFrame 10000), framePayload (sampleFrame 10000),
                framePayload (sampleFrame 10000), framePayload (sampleFrame 10000)])"
proof -
  let ?fs = "[sampleFrame 10000, sampleFrame 10000, sampleFrame 10000, sampleFrame 10000]"
  have e: "clusterFramesList ?fs
     = [sampleFrame 10000, sampleFrame 10000, sampleFrame 10000] # [sampleFrame 10000] # []"
    unfolding clusterFramesList_def sample_partition by simp
  from clusters_keep_every_frame [of ?fs]
  obtain cps clusters where c: "concat (clusterFramesList ?fs) = ?fs"
    and h: "clusterLoop ?fs 0 = Inr (cps, clusters)"
      "length clusters = length (clusterFramesList ?fs)"
      "length cps = length clusters"
      "length (concat (map clusterBlocks clusters)) = length ?fs"
      "map blockFrame (concat (map clusterBlocks clusters)) = map framePayload ?fs"
    by blast
  have f: "length clusters = 2" "length cps = 2"
    "length (concat (map clusterBlocks clusters)) = 4"
    "map blockFrame (concat (map clusterBlocks clusters))
             = [framePayload (sampleFrame 10000), framePayload (sampleFrame 10000),
                framePayload (sampleFrame 10000), framePayload (sampleFrame 10000)]"
    using h(2-5) by (simp_all add: e)
  show ?thesis
    by (intro conjI exI [of _ cps] exI [of _ clusters]) (rule c h(1) f)+
qed

lemma sample_payload: "framePayload (sampleFrame d) = [0, 0, 0, 157, 1, 42, 64, 0, 64, 0]"
  by (simp add: framePayload_def sampleFrame_def indexOf_def keyframeMarker_def jsSlice_def)









section \<open>Muxer: the position loop\<close>

lemma cuePoint_cuePointAt: "cuePoint t = cuePointAt (t, 0)"
  by (simp add: cuePoint_def cuePointAt_def)

lemma setClusterPosition_cuePointAt:
  "setClusterPosition (cuePointAt tp) q = Inr (cuePointAt (fst tp, q))"
  by (simp add: cuePointAt_def)

lemma cueClusterPosition_cuePointAt: "cueClusterPosition (cuePointAt tp) = Some (snd tp)"
  by (simp add: cuePointAt_def)

lemma generateEBML_Cons:
  "generateEBML (e # es) =
     (case generateEBML [e] of
        Inl x \<Rightarrow> Inl x
      | Inr a \<Rightarrow> (case generateEBML es of Inl x \<Rightarrow> Inl x | Inr b \<Rightarrow> Inr (a @ b)))"
  by (cases e) (auto split: sum.splits)

lemma generateEBML_Raw: "generateEBML [Raw b] = Inr b"
  by simp

lemma generateEBML_all:
  "generateEBML es = Inr bs \<Longrightarrow>
   \<exists>rs. list_all2 (\<lambda>e r. generateEBML [e] = Inr r) es rs \<and> bs = concat rs"
proof (induction es arbitrary: bs)
  case Nil
  then show ?case by simp
next
  case (Cons e es)
  from Cons.prems obtain a b where ab: "generateEBML [e] = Inr a" "generateEBML es = Inr b"
    "bs = a @ b"
    by (subst (asm) generateEBML_Cons) (auto split: sum.splits)
  from Cons.IH [OF ab(2)] obtain rs where
    "list_all2 (\<lambda>e r. generateEBML [e] = Inr r) es rs" "b = concat rs" by blast
  with ab show ?case
    by (intro exI [of _ "a # rs"]) simp
qed

lemma cuePointAt_length:
  assumes "generateEBML [cuePointAt (t, p)] = Inr r"
  shows "\<exists>r'. generateEBML [cuePointAt (t, q)] = Inr r' \<and> length r' = length r"
  using assms
  by (auto simp: cuePointAt_def length_numToFixedBuffer split: sum.splits)

lemma cues_length:
  assumes "generateEBML (map cuePointAt tps) = Inr r"
    and "map fst tps' = map fst tps"
  shows "\<exists>r'. generateEBML (map cuePointAt tps') = Inr r' \<and> length r' = length r"
  using assms
proof (induction tps arbitrary: tps' r)
  case Nil
  then show ?case by simp
next
  case (Cons tp tps)
  from Cons.prems(2) obtain tp' rest where t: "tps' = tp' # rest" "fst tp' = fst tp"
    "map fst rest = map fst tps"
    by (cases tps') auto
  from Cons.prems(1) obtain a b where ab: "generateEBML [cuePointAt tp] = Inr a"
    "generateEBML (map cuePointAt tps) = Inr b" "r = a @ b"
    by (simp only: list.map) (subst (asm) generateEBML_Cons, auto split: sum.splits)
  from ab(1) have "generateEBML [cuePointAt (fst tp, snd tp)] = Inr a" by simp
  from cuePointAt_length [OF this, of "snd tp'"] t(2)
  obtain a' where a': "generateEBML [cuePointAt tp'] = Inr a'" "length a' = length a"
    by (metis prod.collapse)
  from Cons.IH [OF ab(2) t(3)] obtain b' where
    b': "generateEBML (map cuePointAt rest) = Inr b'" "length b' = length b" by blast
  have "generateEBML (map cuePointAt tps') = Inr (a' @ b')"
    unfolding t(1) list.map by (subst generateEBML_Cons) (simp add: a' b')
  with a'(2) b'(2) ab(3) show ?case by simp
qed

lemma cues_element_length:
  assumes "generateEBML [Typed cid (Children (map cuePointAt tps)) cs] = Inr r"
    and "map fst tps' = map fst tps"
  shows "\<exists>r'. generateEBML [Typed cid (Children (map cuePointAt tps')) cs] = Inr r'
           \<and> length r' = length r"
proof (cases "cid = 0")
  case True
  with assms show ?thesis by simp
next
  case False
  with assms(1) obtain dat sz where d: "generateEBML (map cuePointAt tps) = Inr dat"
    "vintSize (length dat) = Inr sz" "r = numToBuffer cid @ sz @ dat"
    by (auto split: sum.splits)
  from cues_length [OF d(1) assms(2)] obtain dat' where
    d': "generateEBML (map cuePointAt tps') = Inr dat'" "length dat' = length dat" by blast
  with d False show ?thesis by simp
qed

lemma nth_3_plus: "(a # b # c # xs) ! (3 + n) = xs ! n"
  by (simp add: numeral_3_eq_3)

lemma update_3_plus: "(a # b # c # xs)[3 + n := y] = a # b # c # xs[n := y]"
  by (simp add: numeral_3_eq_3)

lemma nth_2: "(a # b # c # xs) ! 2 = c"
  by (simp add: numeral_2_eq_2)

lemma update_2: "(a # b # c # xs)[2 := y] = a # b # y # xs"
  by (simp add: numeral_2_eq_2)

lemma setCuePosition_cues:
  assumes "k < length tps"
  shows "setCuePosition (a # b # Typed cid (Children (map cuePointAt tps)) cs # xs) k pos
     = Inr (a # b # Typed cid (Children (map cuePointAt (tps[k := (fst (tps ! k), pos)]))) cs # xs)"
  using assms
  by (simp add: setCuePosition_def nth_2 update_2 setClusterPosition_cuePointAt map_update)

lemma positionLoop_clusters:
  assumes "positionLoop (3 + length dn) pos
             (a # b # Typed cid (Children (map cuePointAt tps)) cs # map Raw dn @ td) = Inr sdF"
    and "length tps = length dn + length td"
  shows "\<exists>rs. list_all2 (\<lambda>e r. generateEBML [e] = Inr r) td rs
           \<and> sdF = a # b # Typed cid
                 (Children (map cuePointAt (fillPositions tps (length dn) pos rs))) cs
               # map Raw (dn @ rs)"
  using assms
proof (induction td arbitrary: dn pos tps)
  case Nil
  from Nil.prems(1) have "sdF = a # b # Typed cid (Children (map cuePointAt tps)) cs # map Raw dn"
    by (subst (asm) positionLoop.simps) simp
  then show ?case by simp
next
  case (Cons e td)
  let ?k = "length dn"
  let ?tps = "tps[?k := (fst (tps ! ?k), pos)]"
  let ?sd = "a # b # Typed cid (Children (map cuePointAt tps)) cs # map Raw dn @ e # td"
  let ?sd1 = "a # b # Typed cid (Children (map cuePointAt ?tps)) cs # map Raw dn @ e # td"
  have k: "?k < length tps" using Cons.prems(2) by simp
  have lt: "3 + ?k < length ?sd" by simp
  have set: "setCuePosition ?sd (3 + ?k - 3) pos = Inr ?sd1"
    using setCuePosition_cues [OF k] by simp
  have nth: "?sd1 ! (3 + ?k) = e"
    by (simp add: nth_3_plus nth_append)
  have step: "positionLoop (3 + ?k) pos ?sd =
      (case generateEBML [e] of
         Inl x \<Rightarrow> Inl x
       | Inr dat \<Rightarrow> positionLoop (3 + ?k + 1) (pos + int (length dat)) (?sd1[3 + ?k := Raw dat]))"
    apply (subst positionLoop.simps)
    apply (simp only: lt if_True set sum.case nth le_add1)
    apply (simp cong: sum.case_cong)
    done
  from Cons.prems(1) step obtain dat where dat: "generateEBML [e] = Inr dat"
    and rec: "positionLoop (3 + ?k + 1) (pos + int (length dat)) (?sd1[3 + ?k := Raw dat]) = Inr sdF"
    by (auto split: sum.splits)
  have upd: "?sd1[3 + ?k := Raw dat]
      = a # b # Typed cid (Children (map cuePointAt ?tps)) cs # map Raw (dn @ [dat]) @ td"
    by (simp add: update_3_plus list_update_append)
  have rec': "positionLoop (3 + length (dn @ [dat])) (pos + int (length dat))
      (a # b # Typed cid (Children (map cuePointAt ?tps)) cs # map Raw (dn @ [dat]) @ td) = Inr sdF"
    using rec unfolding upd by simp
  have len: "length ?tps = length (dn @ [dat]) + length td"
    using Cons.prems(2) by simp
  from Cons.IH [OF rec' len] obtain rs where
    rs: "list_all2 (\<lambda>e r. generateEBML [e] = Inr r) td rs"
    "sdF = a # b # Typed cid
        (Children (map cuePointAt
           (fillPositions ?tps (length (dn @ [dat])) (pos + int (length dat)) rs))) cs
        # map Raw ((dn @ [dat]) @ rs)"
    by blast
  show ?case
    using rs dat by (intro exI [of _ "dat # rs"]) simp
qed

lemma length_fillPositions: "length (fillPositions tps k pos rs) = length tps"
  by (induction rs arbitrary: tps k pos) auto

lemma fst_fillPositions: "map fst (fillPositions tps k pos rs) = map fst tps"
proof (induction rs arbitrary: tps k pos)
  case Nil
  show ?case by simp
next
  case (Cons r rs)
  have "map fst (tps[k := (fst (tps ! k), pos)]) = map fst tps"
    by (cases "k < length tps") (simp_all add: map_update list_update_same_conv list_update_beyond)
  with Cons.IH show ?case by simp
qed

lemma fillPositions_before:
  "j < k \<Longrightarrow> fillPositions tps k pos rs ! j = tps ! j"
  by (induction rs arbitrary: tps k pos) auto

lemma fillPositions_nth:
  "k + length rs \<le> length tps \<Longrightarrow> n < length rs \<Longrightarrow>
   snd (fillPositions tps k pos rs ! (k + n)) = pos + int (length (concat (take n rs)))"
proof (induction rs arbitrary: tps k pos n)
  case Nil
  then show ?case by simp
next
  case (Cons r rs)
  let ?tps = "tps[k := (fst (tps ! k), pos)]"
  show ?case
  proof (cases n)
    case 0
    have "fillPositions ?tps (Suc k) (pos + int (length r)) rs ! k = ?tps ! k"
      by (rule fillPositions_before) simp
    with Cons.prems 0 show ?thesis by simp
  next
    case (Suc m)
    have "Suc k + length rs \<le> length ?tps" using Cons.prems(1) by simp
    moreover have "m < length rs" using Cons.prems(2) Suc by simp
    ultimately have "snd (fillPositions ?tps (Suc k) (pos + int (length r)) rs ! (Suc k + m))
        = pos + int (length r) + int (length (concat (take m rs)))"
      by (rule Cons.IH)
    with Suc show ?thesis by simp
  qed
qed

lemma generateEBML_Raws: "generateEBML (map Raw rs) = Inr (concat rs)"
  by (induction rs) auto

lemma positionLoop_head:
  "positionLoop 0 0 (I # T # Q # cls) =
     (case generateEBML [I] of
        Inl x \<Rightarrow> Inl x
      | Inr rI \<Rightarrow>
          (case generateEBML [T] of
             Inl x \<Rightarrow> Inl x
           | Inr rT \<Rightarrow>
               (case generateEBML [Q] of
                  Inl x \<Rightarrow> Inl x
                | Inr rQ \<Rightarrow>
                    positionLoop 3 (int (length rI) + int (length rT) + int (length rQ))
                      (Raw rI # Raw rT # Q # cls))))"
proof -
  have s0: "positionLoop 0 0 (I # T # Q # cls) =
      (case generateEBML [I] of Inl x \<Rightarrow> Inl x
       | Inr rI \<Rightarrow> positionLoop 1 (int (length rI)) (Raw rI # T # Q # cls))"
    by (subst positionLoop.simps) (simp cong: sum.case_cong)
  have s1: "positionLoop 1 p (a # T # Q # cls) =
      (case generateEBML [T] of Inl x \<Rightarrow> Inl x
       | Inr rT \<Rightarrow> positionLoop 2 (p + int (length rT)) (a # Raw rT # Q # cls))" for p a
    by (subst positionLoop.simps) (simp add: numeral_2_eq_2 cong: sum.case_cong)
  have s2: "positionLoop 2 p (a # b # Q # cls) =
      (case generateEBML [Q] of Inl x \<Rightarrow> Inl x
       | Inr rQ \<Rightarrow> positionLoop 3 (p + int (length rQ)) (a # b # Q # cls))" for p a b
    by (subst positionLoop.simps) (simp add: numeral_2_eq_2 numeral_3_eq_3 cong: sum.case_cong)
  show ?thesis
    by (simp only: s0 s1 s2 cong: sum.case_cong)
qed

lemma generateEBML_segment_children:
  "generateEBML (Raw rI # Raw rT # Q # map Raw rCs) =
     (case generateEBML [Q] of Inl x \<Rightarrow> Inl x | Inr rQ \<Rightarrow> Inr (rI @ rT @ rQ @ concat rCs))"
proof -
  have "generateEBML (Q # map Raw rCs) =
     (case generateEBML [Q] of Inl x \<Rightarrow> Inl x | Inr rQ \<Rightarrow> Inr (rQ @ concat rCs))"
    by (subst generateEBML_Cons) (simp add: generateEBML_Raws cong: sum.case_cong)
  then show ?thesis
    by (simp split: sum.splits)
qed


lemma positionLoop_done:
  "positionLoop (3 + length dn) pos (a # b # c # map Raw dn) = Inr (a # b # c # map Raw dn)"
  by (subst positionLoop.simps) simp

lemma positionLoop_step:
  assumes "length dn < length tps"
  shows "positionLoop (3 + length dn) pos
           (a # b # Typed cid (Children (map cuePointAt tps)) cs # map Raw dn @ e # td) =
         (case generateEBML [e] of
            Inl x \<Rightarrow> Inl x
          | Inr dat \<Rightarrow>
              positionLoop (3 + length (dn @ [dat])) (pos + int (length dat))
                (a # b # Typed cid
                   (Children (map cuePointAt (tps[length dn := (fst (tps ! length dn), pos)]))) cs
                 # map Raw (dn @ [dat]) @ td))"
proof -
  let ?k = "length dn"
  let ?tps = "tps[?k := (fst (tps ! ?k), pos)]"
  let ?sd = "a # b # Typed cid (Children (map cuePointAt tps)) cs # map Raw dn @ e # td"
  let ?sd1 = "a # b # Typed cid (Children (map cuePointAt ?tps)) cs # map Raw dn @ e # td"
  have lt: "3 + ?k < length ?sd" by simp
  have set: "setCuePosition ?sd (3 + ?k - 3) pos = Inr ?sd1"
    using setCuePosition_cues [OF assms] by simp
  have nth: "?sd1 ! (3 + ?k) = e"
    by (simp add: nth_3_plus nth_append)
  have upd: "?sd1[3 + ?k := Raw dat]
      = a # b # Typed cid (Children (map cuePointAt ?tps)) cs # map Raw (dn @ [dat]) @ td" for dat
    by (simp add: update_3_plus list_update_append)
  have ne: "3 + ?k \<noteq> 2" by simp
  have suc: "3 + ?k + 1 = 3 + length (dn @ [dat])" for dat :: bytes by simp
  show ?thesis
    apply (subst positionLoop.simps)
    apply (simp only: lt if_True set sum.case nth le_add1 ne not_False_eq_True upd
        cong: sum.case_cong)
    apply (simp cong: sum.case_cong)
    done
qed

lemma positionLoop_run:
  assumes "list_all2 (\<lambda>e r. generateEBML [e] = Inr r) td rs"
    and "length tps = length dn + length td"
  shows "positionLoop (3 + length dn) pos
           (a # b # Typed cid (Children (map cuePointAt tps)) cs # map Raw dn @ td)
         = Inr (a # b # Typed cid
                  (Children (map cuePointAt (fillPositions tps (length dn) pos rs))) cs
                # map Raw (dn @ rs))"
  using assms
proof (induction td rs arbitrary: dn pos tps rule: list_all2_induct)
  case Nil
  show ?case using positionLoop_done [of dn pos a b] by simp
next
  case (Cons e td r rs)
  have k: "length dn < length tps" using Cons.prems by simp
  have len: "length (tps[length dn := (fst (tps ! length dn), pos)]) = length (dn @ [r]) + length td"
    using Cons.prems by simp
  show ?case
    unfolding positionLoop_step [OF k] Cons.hyps(1) sum.case
    using Cons.IH [OF len, of "pos + int (length r)"] by simp
qed

lemma generateEBML_Children:
  "i \<noteq> 0 \<Longrightarrow>
   generateEBML [Typed i (Children els) s] =
     (case generateEBML els of
        Inl x \<Rightarrow> Inl x
      | Inr dat \<Rightarrow>
          (case vintSize (length dat) of
             Inl x \<Rightarrow> Inl x
           | Inr sz \<Rightarrow> Inr (numToBuffer i @ sz @ dat)))"
  by (simp split: sum.splits)

lemma toWebM_run:
  assumes info: "validateFrames frames = Inr info"
    and cl: "clusterList frames 0 = cl"
    and rI: "generateEBML [createSegmentInfo (totalDuration info)] = Inr rI"
    and rT: "generateEBML [createTracks (frameWidth info) (frameHeight info)] = Inr rT"
    and rQ0: "generateEBML
        [Typed 0x1c53bb6b (Children (map cuePointAt (map (\<lambda>c. (fst c, 0)) cl))) None] = Inr rQ0"
    and rCs: "list_all2 (\<lambda>e r. generateEBML [e] = Inr r) (map clusterElement cl) rCs"
    and rQ: "generateEBML
        [Typed 0x1c53bb6b
          (Children (map cuePointAt
            (fillPositions (map (\<lambda>c. (fst c, 0)) cl) 0
               (int (length rI) + int (length rT) + int (length rQ0)) rCs))) None] = Inr rQ"
    and hdr: "generateEBML [createEBMLHeader info] = Inr hdr"
    and sz: "vintSize (length (rI @ rT @ rQ @ concat rCs)) = Inr sz"
  shows "toWebM frames = Inr (hdr @ numToBuffer 0x18538067 @ sz @ rI @ rT @ rQ @ concat rCs)"
proof -
  let ?tps = "map (\<lambda>c. (fst c, 0::int)) cl"
  let ?p3 = "int (length rI) + int (length rT) + int (length rQ0)"
  have loop: "clusterLoop frames 0 = Inr (map cuePointAt ?tps, map clusterElement cl)"
    by (simp add: clusterLoop_eq cl cuePoint_cuePointAt comp_def)
  have "length ?tps = length ([] :: bytes list) + length (map clusterElement cl)" by simp
  from positionLoop_run [OF rCs this, of ?p3 "Raw rI" "Raw rT" "0x1c53bb6b" None]
  have p: "positionLoop 3 ?p3
      (Raw rI # Raw rT # Typed 0x1c53bb6b (Children (map cuePointAt ?tps)) None
        # map clusterElement cl)
      = Inr (Raw rI # Raw rT
          # Typed 0x1c53bb6b (Children (map cuePointAt (fillPositions ?tps 0 ?p3 rCs))) None
          # map Raw rCs)"
    by simp
  have seg: "generateEBML (Raw rI # Raw rT
          # Typed 0x1c53bb6b (Children (map cuePointAt (fillPositions ?tps 0 ?p3 rCs))) None
          # map Raw rCs) = Inr (rI @ rT @ rQ @ concat rCs)"
    unfolding generateEBML_segment_children rQ by simp
  have ne: "(0x18538067::int) \<noteq> 0" by simp
  have segE: "generateEBML [Typed 0x18538067 (Children (Raw rI # Raw rT
          # Typed 0x1c53bb6b (Children (map cuePointAt (fillPositions ?tps 0 ?p3 rCs))) None
          # map Raw rCs)) None]
      = Inr (numToBuffer 0x18538067 @ sz @ rI @ rT @ rQ @ concat rCs)"
    by (simp only: generateEBML_Children [OF ne] seg sz sum.case)
  have fin: "generateEBML [createEBMLHeader info,
        Typed 0x18538067 (Children (Raw rI # Raw rT
          # Typed 0x1c53bb6b (Children (map cuePointAt (fillPositions ?tps 0 ?p3 rCs))) None
          # map Raw rCs)) None]
      = Inr (hdr @ numToBuffer 0x18538067 @ sz @ rI @ rT @ rQ @ concat rCs)"
    by (subst generateEBML_Cons) (simp only: hdr segE sum.case)
  show ?thesis
    unfolding toWebM_def info loop
    apply (simp only: sum.case prod.case append_Cons append_Nil positionLoop_head rI rT rQ0 p)
    apply (rule fin)
    done
qed

section \<open>Muxer: worked documents\<close>

lemma vint_table:
  "vintSize (Suc 0) = Inr [1, 1]"
  "vintSize 1 = Inr [1, 1]"
  "vintSize 2 = Inr [0, 128, 2]"
  "vintSize 3 = Inr [0, 128, 3]"
  "vintSize 4 = Inr [0, 128, 4]"
  "vintSize 5 = Inr [0, 128, 5]"
  "vintSize 6 = Inr [0, 128, 6]"
  "vintSize 8 = Inr [0, 128, 8]"
  "vintSize 14 = Inr [0, 128, 14]"
  "vintSize 16 = Inr [0, 128, 16]"
  "vintSize 22 = Inr [0, 128, 22]"
  "vintSize 24 = Inr [0, 128, 24]"
  "vintSize 26 = Inr [0, 128, 26]"
  "vintSize 28 = Inr [0, 128, 28]"
  "vintSize 39 = Inr [0, 128, 39]"
  "vintSize 40 = Inr [0, 128, 40]"
  "vintSize 44 = Inr [0, 128, 44]"
  "vintSize 56 = Inr [0, 128, 56]"
  "vintSize 58 = Inr [0, 128, 58]"
  "vintSize 60 = Inr [0, 128, 60]"
  "vintSize 182 = Inr [0, 128, 182]"
  "vintSize 261 = Inr [0, 64, 1, 5]"
  by (simp_all add: vint_eval)

lemmas ebml_eval = vint_table numToBuffer.simps js_shr_8 js_and_255 toInt32_def toUint8_def
  toString2_def binDigits.simps bitsToBuffer_def parseInt2_def isBinDigit_def binValue_def
  Let_def upt_rec [of "numeral _"] upt_rec [of 0] upt_rec [of "Suc _"] replicate_numeral
  strToBuffer_def ascii_def numToFixedBuffer_numeral numeral_2_eq_2 [symmetric]

lemma header_bytes:
  "generateEBML [createEBMLHeader info] =
     Inr [26, 69, 223, 163, 0, 128, 39, 66, 134, 1, 1, 1, 66, 247, 1, 1, 1, 66,
      242, 1, 1, 4, 66, 243, 1, 1, 8, 66, 130, 0, 128, 4, 119, 101, 98, 109,
      66, 135, 1, 1, 2, 66, 133, 1, 1, 2]"
  by (simp add: createEBMLHeader_def ebml_eval)

lemma tracks_bytes:
  "generateEBML [createTracks 64 64] =
     Inr [22, 84, 174, 107, 0, 128, 60, 174, 0, 128, 56, 215, 1, 1, 1, 115,
      197, 1, 1, 1, 156, 1, 1, 0, 34, 181, 156, 0, 128, 3, 117, 110, 100,
      134, 0, 128, 5, 86, 95, 86, 80, 56, 37, 134, 136, 0, 128, 3, 86, 80,
      56, 131, 1, 1, 1, 224, 0, 128, 8, 176, 1, 1, 64, 186, 1, 1, 64]"
  by (simp add: createTracks_def ebml_eval)

lemma info_40000_bytes:
  "generateEBML [createSegmentInfo 40000] =
     Inr [21, 73, 169, 102, 0, 128, 44, 42, 215, 177, 0, 128, 3, 15, 66, 64, 77,
      128, 0, 128, 6, 119, 104, 97, 109, 109, 121, 87, 65, 0, 128, 6, 119,
      104, 97, 109, 109, 121, 68, 137, 0, 128, 8, 64, 227, 136, 0, 0, 0, 0, 0]"
  by (simp add: createSegmentInfo_def TIMECODE_SCALE_def doubleToString_def float64Bits_def
      ebml_eval)

lemma cues_single_bytes:
  "generateEBML [Typed 0x1c53bb6b (Children [cuePointAt (0, p)]) None] =
     Inr ([28, 83, 187, 107, 0, 128, 28, 187, 0, 128, 24, 179, 1, 1, 0, 183, 0, 128,
      16, 247, 1, 1, 1, 241, 0, 128, 8] @ numToFixedBuffer p 8)"
  by (simp add: cuePointAt_def length_numToFixedBuffer ebml_eval
      del: numToFixedBuffer_numeral)

lemma cues_bytes_one:
  "generateEBML [cuePointAt (0, p)] =
     Inr ([187, 0, 128, 24, 179, 1, 1, 0, 183, 0, 128, 16, 247, 1, 1, 1, 241, 0, 128, 8]
          @ numToFixedBuffer p 8)"
  by (simp add: cuePointAt_def length_numToFixedBuffer ebml_eval
      del: numToFixedBuffer_numeral)

lemma sample_40000_validate:
  "validateFrames [sampleFrame 40000]
     = Inr \<lparr> totalDuration = 40000, frameWidth = 64, frameHeight = 64 \<rparr>"
  by (simp add: validateFrames_def sampleFrame_def)

lemma sample_40000_list: "clusterList [sampleFrame 40000] 0 = [(0, [sampleFrame 40000])]"
  by simp

lemma sample_40000_cluster:
  "generateEBML [clusterElement (0, [sampleFrame 40000])] =
     Inr [31, 67, 182, 117, 0, 128, 22, 231, 1, 1, 0, 163, 0, 128, 14, 129, 0, 0, 128,
      0, 0, 0, 157, 1, 42, 64, 0, 64, 0]"
  by (simp add: clusterElement_def sample_payload blockHeader_bytes ebml_eval)

lemma sample_40000_output:
  "toWebM [sampleFrame 40000] = Inr [26, 69, 223, 163, 0, 128, 39, 66, 134, 1, 1, 1, 66, 247, 1, 1, 1, 66,
      242, 1, 1, 4, 66, 243, 1, 1, 8, 66, 130, 0, 128, 4, 119, 101, 98, 109,
      66, 135, 1, 1, 2, 66, 133, 1, 1, 2, 24, 83, 128, 103, 0, 128, 182, 21,
      73, 169, 102, 0, 128, 44, 42, 215, 177, 0, 128, 3, 15, 66, 64, 77,
      128, 0, 128, 6, 119, 104, 97, 109, 109, 121, 87, 65, 0, 128, 6, 119,
      104, 97, 109, 109, 121, 68, 137, 0, 128, 8, 64, 227, 136, 0, 0, 0, 0,
      0, 22, 84, 174, 107, 0, 128, 60, 174, 0, 128, 56, 215, 1, 1, 1, 115,
      197, 1, 1, 1, 156, 1, 1, 0, 34, 181, 156, 0, 128, 3, 117, 110, 100,
      134, 0, 128, 5, 86, 95, 86, 80, 56, 37, 134, 136, 0, 128, 3, 86, 80,
      56, 131, 1, 1, 1, 224, 0, 128, 8, 176, 1, 1, 64, 186, 1, 1, 64, 28,
      83, 187, 107, 0, 128, 28, 187, 0, 128, 24, 179, 1, 1, 0, 183, 0, 128,
      16, 247, 1, 1, 1, 241, 0, 128, 8, 0, 0, 0, 0, 0, 0, 0, 153, 31, 67,
      182, 117, 0, 128, 22, 231, 1, 1, 0, 163, 0, 128, 14, 129, 0, 0, 128,
      0, 0, 0, 157, 1, 42, 64, 0, 64, 0]"
proof -
  let ?info = "\<lparr> totalDuration = 40000, frameWidth = 64, frameHeight = 64 \<rparr>"
  let ?cl = "[(0::int, [sampleFrame 40000])]"
  let ?rI = "[21, 73, 169, 102, 0, 128, 44, 42, 215, 177, 0, 128, 3, 15, 66, 64, 77,
      128, 0, 128, 6, 119, 104, 97, 109, 109, 121, 87, 65, 0, 128, 6, 119,
      104, 97, 109, 109, 121, 68, 137, 0, 128, 8, 64, 227, 136, 0, 0, 0, 0, 0::nat]"
  let ?rT = "[22, 84, 174, 107, 0, 128, 60, 174, 0, 128, 56, 215, 1, 1, 1, 115,
      197, 1, 1, 1, 156, 1, 1, 0, 34, 181, 156, 0, 128, 3, 117, 110, 100,
      134, 0, 128, 5, 86, 95, 86, 80, 56, 37, 134, 136, 0, 128, 3, 86, 80,
      56, 131, 1, 1, 1, 224, 0, 128, 8, 176, 1, 1, 64, 186, 1, 1, 64::nat]"
  let ?rZ = "[28, 83, 187, 107, 0, 128, 28, 187, 0, 128, 24, 179, 1, 1, 0, 183, 0, 128,
      16, 247, 1, 1, 1, 241, 0, 128, 8, 0, 0, 0, 0, 0, 0, 0, 0::nat]"
  let ?rQ = "[28, 83, 187, 107, 0, 128, 28, 187, 0, 128, 24, 179, 1, 1, 0, 183, 0, 128,
      16, 247, 1, 1, 1, 241, 0, 128, 8, 0, 0, 0, 0, 0, 0, 0, 153::nat]"
  let ?rC = "[31, 67, 182, 117, 0, 128, 22, 231, 1, 1, 0, 163, 0, 128, 14, 129, 0, 0, 128,
      0, 0, 0, 157, 1, 42, 64, 0, 64, 0::nat]"
  let ?hdr = "[26, 69, 223, 163, 0, 128, 39, 66, 134, 1, 1, 1, 66, 247, 1, 1, 1, 66,
      242, 1, 1, 4, 66, 243, 1, 1, 8, 66, 130, 0, 128, 4, 119, 101, 98, 109,
      66, 135, 1, 1, 2, 66, 133, 1, 1, 2::nat]"
  have rI: "generateEBML [createSegmentInfo (totalDuration ?info)] = Inr ?rI"
    by (simp add: info_40000_bytes)
  have rT: "generateEBML [createTracks (frameWidth ?info) (frameHeight ?info)] = Inr ?rT"
    by (simp add: tracks_bytes)
  have rQ0: "generateEBML
        [Typed 0x1c53bb6b (Children (map cuePointAt (map (\<lambda>c. (fst c, 0)) ?cl))) None]
      = Inr ?rZ"
    by (simp add: cues_bytes_one vint_table js_eval numToBuffer.simps length_numToFixedBuffer
        numeral_2_eq_2 [symmetric])
  have rCs: "list_all2 (\<lambda>e r. generateEBML [e] = Inr r) (map clusterElement ?cl) [?rC]"
    by (simp add: sample_40000_cluster)
  have rQ: "generateEBML
        [Typed 0x1c53bb6b
          (Children (map cuePointAt
            (fillPositions (map (\<lambda>c. (fst c, 0)) ?cl) 0
               (int (length ?rI) + int (length ?rT) + int (length ?rZ)) [?rC]))) None]
      = Inr ?rQ"
    by (simp add: cues_bytes_one vint_table js_eval numToBuffer.simps length_numToFixedBuffer
        numeral_2_eq_2 [symmetric])
  have hdr: "generateEBML [createEBMLHeader ?info] = Inr ?hdr"
    by (simp add: header_bytes)
  have sz: "vintSize (length (?rI @ ?rT @ ?rQ @ concat [?rC])) = Inr [0, 128, 182]"
    by (simp add: vint_table numeral_2_eq_2 [symmetric])
  show ?thesis
    using toWebM_run [OF sample_40000_validate sample_40000_list rI rT rQ0 rCs rQ hdr sz]
    by (simp add: numToBuffer.simps js_eval)
qed

lemma validateLoop_rejects:
  "\<exists>fr \<in> set rest. width fr \<noteq> w \<or> height fr \<noteq> h \<or> duration fr < 0 \<or> 32767 < duration fr \<Longrightarrow>
   \<exists>e. validateLoop i rest w h tot = Inl e"
  by (induction rest arbitrary: i tot) auto

lemma toWebM_rejects:
  assumes "0 < i" "i < length frames"
    and "width (frames ! i) \<noteq> width (frames ! 0) \<or> height (frames ! i) \<noteq> height (frames ! 0)
       \<or> duration (frames ! i) < 0 \<or> 32767 < duration (frames ! i)"
  shows "\<exists>e. toWebM frames = Inl e"
proof -
  from assms(1,2) obtain f0 rest where f: "frames = f0 # rest" by (cases frames) auto
  from assms(1,2) f have "frames ! i \<in> set rest" by (cases i) auto
  with assms(3) f
  have "\<exists>fr \<in> set rest. width fr \<noteq> width f0 \<or> height fr \<noteq> height f0
      \<or> duration fr < 0 \<or> 32767 < duration fr"
    by auto
  from validateLoop_rejects [OF this, of 1 "duration f0"]
  show ?thesis by (auto simp: toWebM_def validateFrames_def f)
qed

text \<open>
  Claim C3 at the first frame.  \<open>validateFrames\<close> reads the duration of frame 0 into the
  total (line 36) and checks the range inside the loop, which starts at index 1
  (line 38).  A single frame with the duration 40000 is therefore accepted and \<open>toWebM\<close>
  returns a document; the same duration in the second frame is rejected, and so is the
  empty list.  For every frame but the first the claim holds (\<open>toWebM_rejects\<close>).
\<close>

theorem first_frame_duration_unchecked:
  "validateFrames [sampleFrame 40000]
     = Inr \<lparr> totalDuration = 40000, frameWidth = 64, frameHeight = 64 \<rparr>
   \<and> toWebM [sampleFrame 40000] = Inr [26, 69, 223, 163, 0, 128, 39, 66, 134, 1, 1, 1, 66, 247, 1, 1, 1, 66,
      242, 1, 1, 4, 66, 243, 1, 1, 8, 66, 130, 0, 128, 4, 119, 101, 98, 109,
      66, 135, 1, 1, 2, 66, 133, 1, 1, 2, 24, 83, 128, 103, 0, 128, 182, 21,
      73, 169, 102, 0, 128, 44, 42, 215, 177, 0, 128, 3, 15, 66, 64, 77,
      128, 0, 128, 6, 119, 104, 97, 109, 109, 121, 87, 65, 0, 128, 6, 119,
      104, 97, 109, 109, 121, 68, 137, 0, 128, 8, 64, 227, 136, 0, 0, 0, 0,
      0, 22, 84, 174, 107, 0, 128, 60, 174, 0, 128, 56, 215, 1, 1, 1, 115,
      197, 1, 1, 1, 156, 1, 1, 0, 34, 181, 156, 0, 128, 3, 117, 110, 100,
      134, 0, 128, 5, 86, 95, 86, 80, 56, 37, 134, 136, 0, 128, 3, 86, 80,
      56, 131, 1, 1, 1, 224, 0, 128, 8, 176, 1, 1, 64, 186, 1, 1, 64, 28,
      83, 187, 107, 0, 128, 28, 187, 0, 128, 24, 179, 1, 1, 0, 183, 0, 128,
      16, 247, 1, 1, 1, 241, 0, 128, 8, 0, 0, 0, 0, 0, 0, 0, 153, 31, 67,
      182, 117, 0, 128, 22, 231, 1, 1, 0, 163, 0, 128, 14, 129, 0, 0, 128,
      0, 0, 0, 157, 1, 42, 64, 0, 64, 0]
   \<and> toWebM [sampleFrame 1000, sampleFrame 40000] = Inl (InvalidDuration 2)
   \<and> toWebM [] = Inl NoFrames"
proof -
  have a: "toWebM [sampleFrame 1000, sampleFrame 40000] = Inl (InvalidDuration 2)"
    by (simp add: toWebM_def validateFrames_def sampleFrame_def)
  have b: "toWebM [] = Inl NoFrames"
    by (simp add: toWebM_def validateFrames_def)
  from sample_40000_validate sample_40000_output a b show ?thesis by (intro conjI)
qed


section \<open>Muxer: cue positions\<close>

lemma cuePointAt_bytes:
  assumes "generateEBML [cuePointAt (t, p)] = Inr r"
  shows "\<exists>pre. r = pre @ numToFixedBuffer p 8"
proof -
  from assms obtain a b c d e where "r = a @ b @ c @ d @ e @ numToFixedBuffer p 8"
    by (auto simp: cuePointAt_def split: sum.splits)
  then have "r = (a @ b @ c @ d @ e) @ numToFixedBuffer p 8" by simp
  then show ?thesis by blast
qed

lemma bigEndianValue_position:
  assumes "0 \<le> p" "p < 2 ^ 31"
  shows "bigEndianValue (numToFixedBuffer p 8) = nat p"
proof -
  have "int (bigEndianValue (numToFixedBuffer p 8)) = toInt32 p mod 256 ^ 8"
    by (rule bigEndianValue_numToFixedBuffer)
  also have "toInt32 p = p" using assms by (simp add: toInt32_id)
  also have "p mod 256 ^ 8 = p" using assms by simp
  finally show ?thesis by simp
qed


text \<open>
  Claim C2, as the code has it.  Let \<open>toWebM\<close> return the output \<open>out\<close>.  Then \<open>out\<close> is the
  EBML header followed by the Segment, whose data is the encodings of Info, Tracks, Cues
  and the clusters, in this order.  The Cues element encoded in \<open>out\<close> holds one cue
  point per cluster: cue point \<open>n\<close> is the one the cluster loop pushed, with its
  \<open>CueClusterPosition\<close> set to \<open>segmentOffset ... n\<close>, the sum of the lengths of the encodings
  of Info, Tracks, Cues and the clusters before cluster \<open>n\<close>, all taken from \<open>out\<close> itself.
  The encoding of cue point \<open>n\<close> ends with the eight bytes that \<open>numToFixedBuffer\<close> makes
  of this number; read big-endian they are the number when it is below \<open>2 ^ 31\<close>.
\<close>

theorem cue_positions_are_cluster_offsets:
  assumes "toWebM frames = Inr out"
  shows "\<exists>info cps clusters rI rT rQ rCs cps' rPs szQ hdr sz.
      validateFrames frames = Inr info
    \<and> clusterLoop frames 0 = Inr (cps, clusters)
    \<and> generateEBML [createSegmentInfo (totalDuration info)] = Inr rI
    \<and> generateEBML [createTracks (frameWidth info) (frameHeight info)] = Inr rT
    \<and> list_all2 (\<lambda>c r. generateEBML [c] = Inr r) clusters rCs
    \<and> generateEBML [createEBMLHeader info] = Inr hdr
    \<and> vintSize (length (rI @ rT @ rQ @ concat rCs)) = Inr sz
    \<and> out = hdr @ numToBuffer 0x18538067 @ sz @ rI @ rT @ rQ @ concat rCs
    \<and> generateEBML [Typed 0x1c53bb6b (Children cps') None] = Inr rQ
    \<and> list_all2 (\<lambda>c r. generateEBML [c] = Inr r) cps' rPs
    \<and> vintSize (length (concat rPs)) = Inr szQ
    \<and> rQ = numToBuffer 0x1c53bb6b @ szQ @ concat rPs
    \<and> length cps = length clusters
    \<and> length cps' = length clusters
    \<and> (\<forall>n < length clusters.
          setClusterPosition (cps ! n) (segmentOffset rI rT rQ rCs n) = Inr (cps' ! n)
          \<and> cueClusterPosition (cps' ! n) = Some (segmentOffset rI rT rQ rCs n)
          \<and> (\<exists>pre. rPs ! n = pre @ numToFixedBuffer (segmentOffset rI rT rQ rCs n) 8)
          \<and> (segmentOffset rI rT rQ rCs n < 2 ^ 31 \<longrightarrow>
                bigEndianValue (numToFixedBuffer (segmentOffset rI rT rQ rCs n) 8)
                  = nat (segmentOffset rI rT rQ rCs n)))"
proof -
  let ?cl = "clusterList frames 0"
  let ?tps = "map (\<lambda>c. (fst c, 0::int)) ?cl"
  let ?clusters = "map clusterElement ?cl"
  from assms obtain info where info: "validateFrames frames = Inr info"
    by (auto simp: toWebM_def split: sum.splits)
  let ?I = "createSegmentInfo (totalDuration info)"
  let ?T = "createTracks (frameWidth info) (frameHeight info)"
  have cl: "clusterLoop frames 0 = Inr (map cuePointAt ?tps, ?clusters)"
    by (simp add: clusterLoop_eq cuePoint_cuePointAt comp_def)
  from assms info cl obtain sd where
    sd: "positionLoop 0 0 (?I # ?T # Typed 0x1c53bb6b (Children (map cuePointAt ?tps)) None
            # ?clusters) = Inr sd"
    and out: "generateEBML [createEBMLHeader info, Typed 0x18538067 (Children sd) None] = Inr out"
    by (auto simp: toWebM_def split: sum.splits)
  from sd obtain rI rT rQ0 where
    rI: "generateEBML [?I] = Inr rI" and rT: "generateEBML [?T] = Inr rT"
    and rQ0: "generateEBML [Typed 0x1c53bb6b (Children (map cuePointAt ?tps)) None] = Inr rQ0"
    and loop: "positionLoop 3 (int (length rI) + int (length rT) + int (length rQ0))
         (Raw rI # Raw rT # Typed 0x1c53bb6b (Children (map cuePointAt ?tps)) None # ?clusters)
         = Inr sd"
    by (subst (asm) positionLoop_head) (auto split: sum.splits)
  let ?p3 = "int (length rI) + int (length rT) + int (length rQ0)"
  have loop': "positionLoop (3 + length ([] :: bytes list)) ?p3
         (Raw rI # Raw rT # Typed 0x1c53bb6b (Children (map cuePointAt ?tps)) None
          # map Raw [] @ ?clusters) = Inr sd"
    using loop by simp
  have "length ?tps = length ([] :: bytes list) + length ?clusters" by simp
  from positionLoop_clusters [OF loop' this] obtain rCs where
    rCs: "list_all2 (\<lambda>c r. generateEBML [c] = Inr r) ?clusters rCs"
    and sdF: "sd = Raw rI # Raw rT
        # Typed 0x1c53bb6b (Children (map cuePointAt (fillPositions ?tps 0 ?p3 rCs))) None
        # map Raw rCs"
    by auto
  let ?tpsF = "fillPositions ?tps 0 ?p3 rCs"
  have lenC: "length rCs = length ?cl"
    using list_all2_lengthD [OF rCs] by simp
  from out obtain hdr b where hdr: "generateEBML [createEBMLHeader info] = Inr hdr"
    and b: "generateEBML [Typed 0x18538067 (Children sd) None] = Inr b" and ob: "out = hdr @ b"
    by (subst (asm) generateEBML_Cons) (auto split: sum.splits)
  from b obtain dat sz where dat: "generateEBML sd = Inr dat"
    and sz: "vintSize (length dat) = Inr sz" and bb: "b = numToBuffer 0x18538067 @ sz @ dat"
    by (auto split: sum.splits)
  from dat obtain rQ where
    rQ: "generateEBML [Typed 0x1c53bb6b (Children (map cuePointAt ?tpsF)) None] = Inr rQ"
    and d: "dat = rI @ rT @ rQ @ concat rCs"
    unfolding sdF generateEBML_segment_children by (auto split: sum.splits)
  have "map fst ?tps = map fst ?tpsF" by (simp add: fst_fillPositions)
  from cues_element_length [OF rQ this] rQ0 have lenQ: "length rQ0 = length rQ" by simp
  have ne: "(0x1c53bb6b::int) \<noteq> 0" by simp
  from rQ obtain datQ szQ where datQ: "generateEBML (map cuePointAt ?tpsF) = Inr datQ"
    and szQ: "vintSize (length datQ) = Inr szQ"
    and rQe: "rQ = numToBuffer 0x1c53bb6b @ szQ @ datQ"
    unfolding generateEBML_Children [OF ne] by (auto split: sum.splits)
  from generateEBML_all [OF datQ] obtain rPs where
    rPs: "list_all2 (\<lambda>e r. generateEBML [e] = Inr r) (map cuePointAt ?tpsF) rPs"
    and dQ: "datQ = concat rPs"
    by blast
  have lenF: "length (map cuePointAt ?tpsF) = length ?clusters"
    by (simp add: length_fillPositions)
  have pos: "setClusterPosition (map cuePointAt ?tps ! n) (segmentOffset rI rT rQ rCs n)
          = Inr (map cuePointAt ?tpsF ! n)
      \<and> cueClusterPosition (map cuePointAt ?tpsF ! n) = Some (segmentOffset rI rT rQ rCs n)
      \<and> (\<exists>pre. rPs ! n = pre @ numToFixedBuffer (segmentOffset rI rT rQ rCs n) 8)
      \<and> (segmentOffset rI rT rQ rCs n < 2 ^ 31 \<longrightarrow>
            bigEndianValue (numToFixedBuffer (segmentOffset rI rT rQ rCs n) 8)
              = nat (segmentOffset rI rT rQ rCs n))"
    if "n < length ?clusters" for n
  proof -
    let ?p = "segmentOffset rI rT rQ rCs n"
    have n: "n < length rCs" using that lenC by simp
    have nF: "n < length ?tpsF" using that by (simp add: length_fillPositions)
    have nT: "n < length ?tps" using that by simp
    have "0 + length rCs \<le> length ?tps" using lenC by simp
    from fillPositions_nth [OF this n, of ?p3]
    have s: "snd (?tpsF ! n) = ?p"
      by (simp add: segmentOffset_def lenQ)
    have "map fst ?tpsF ! n = map fst ?tps ! n" by (simp add: fst_fillPositions)
    then have f: "fst (?tpsF ! n) = fst (?tps ! n)" using nF nT by simp
    have e: "?tpsF ! n = (fst (?tps ! n), ?p)"
      using s f by (metis prod.collapse)
    have a: "setClusterPosition (map cuePointAt ?tps ! n) ?p = Inr (map cuePointAt ?tpsF ! n)"
      using nT nF by (simp only: nth_map e setClusterPosition_cuePointAt)
    have b: "cueClusterPosition (map cuePointAt ?tpsF ! n) = Some ?p"
      using nF by (simp only: nth_map e cueClusterPosition_cuePointAt snd_conv)
    have "generateEBML [map cuePointAt ?tpsF ! n] = Inr (rPs ! n)"
      using list_all2_nthD [OF rPs, of n] nF by simp
    then have "generateEBML [cuePointAt (fst (?tps ! n), ?p)] = Inr (rPs ! n)"
      using nF by (simp only: nth_map e)
    then have c: "\<exists>pre. rPs ! n = pre @ numToFixedBuffer ?p 8"
      by (rule cuePointAt_bytes)
    have "0 \<le> ?p" by (simp add: segmentOffset_def)
    then have d: "?p < 2 ^ 31 \<longrightarrow> bigEndianValue (numToFixedBuffer ?p 8) = nat ?p"
      by (simp add: bigEndianValue_position)
    from a b c d show ?thesis by blast
  qed
  have lenP: "length (map cuePointAt ?tps) = length ?clusters" by simp
  have szQ': "vintSize (length (concat rPs)) = Inr szQ" using szQ dQ by simp
  have rQe': "rQ = numToBuffer 0x1c53bb6b @ szQ @ concat rPs" using rQe dQ by simp
  have sz': "vintSize (length (rI @ rT @ rQ @ concat rCs)) = Inr sz" using sz d by simp
  have out': "out = hdr @ numToBuffer 0x18538067 @ sz @ rI @ rT @ rQ @ concat rCs"
    using ob bb d by simp
  have all: "\<forall>n < length ?clusters.
      setClusterPosition (map cuePointAt ?tps ! n) (segmentOffset rI rT rQ rCs n)
          = Inr (map cuePointAt ?tpsF ! n)
      \<and> cueClusterPosition (map cuePointAt ?tpsF ! n) = Some (segmentOffset rI rT rQ rCs n)
      \<and> (\<exists>pre. rPs ! n = pre @ numToFixedBuffer (segmentOffset rI rT rQ rCs n) 8)
      \<and> (segmentOffset rI rT rQ rCs n < 2 ^ 31 \<longrightarrow>
            bigEndianValue (numToFixedBuffer (segmentOffset rI rT rQ rCs n) 8)
              = nat (segmentOffset rI rT rQ rCs n))"
    using pos by blast
  show ?thesis
    apply (rule exI [of _ info], rule exI [of _ "map cuePointAt ?tps"],
        rule exI [of _ ?clusters], rule exI [of _ rI], rule exI [of _ rT], rule exI [of _ rQ],
        rule exI [of _ rCs], rule exI [of _ "map cuePointAt ?tpsF"], rule exI [of _ rPs],
        rule exI [of _ szQ], rule exI [of _ hdr], rule exI [of _ sz])
    apply (intro conjI)
                  apply (rule info cl rI rT rCs hdr sz' out' rQ rPs szQ' rQe' lenP lenF all)+
    done
qed

lemma generateEBML_Cons2:
  "generateEBML (e # e' # es) =
     (case generateEBML [e] of
        Inl x \<Rightarrow> Inl x
      | Inr a \<Rightarrow> (case generateEBML (e' # es) of Inl x \<Rightarrow> Inl x | Inr b \<Rightarrow> Inr (a @ b)))"
  by (rule generateEBML_Cons)

lemma cues_bytes_40000:
  "generateEBML [cuePointAt (40000, p)] =
     Inr ([187, 0, 128, 26, 179, 0, 128, 2, 156, 64, 183, 0, 128, 16, 247, 1, 1, 1,
           241, 0, 128, 8] @ numToFixedBuffer p 8)"
  by (simp add: cuePointAt_def length_numToFixedBuffer ebml_eval
      del: numToFixedBuffer_numeral)

lemma cues_two_bytes:
  "generateEBML [Typed 0x1c53bb6b (Children [cuePointAt (0, p), cuePointAt (40000, q)]) None] =
     Inr ([28, 83, 187, 107, 0, 128, 58, 187, 0, 128, 24, 179, 1, 1, 0, 183, 0, 128,
           16, 247, 1, 1, 1, 241, 0, 128, 8] @ numToFixedBuffer p 8
          @ [187, 0, 128, 26, 179, 0, 128, 2, 156, 64, 183, 0, 128, 16, 247, 1, 1, 1,
             241, 0, 128, 8] @ numToFixedBuffer q 8)"
proof -
  have ne: "(0x1c53bb6b::int) \<noteq> 0" by simp
  show ?thesis
    unfolding generateEBML_Children [OF ne] generateEBML_Cons2 cues_bytes_one cues_bytes_40000
    by (simp add: vint_table numToBuffer.simps js_shr_8 js_and_255 toInt32_def toUint8_def
        length_numToFixedBuffer numeral_2_eq_2 [symmetric])
qed

lemma cues_two_length:
  assumes "generateEBML
      [Typed 0x1c53bb6b (Children [cuePointAt (0, p), cuePointAt (40000, q)]) None] = Inr r"
  shows "length r = 65"
  using assms unfolding cues_two_bytes by (auto simp: length_numToFixedBuffer)

lemma info_41000_bytes:
  "generateEBML [createSegmentInfo 41000] =
     Inr [21, 73, 169, 102, 0, 128, 44, 42, 215, 177, 0, 128, 3, 15, 66, 64, 77,
      128, 0, 128, 6, 119, 104, 97, 109, 109, 121, 87, 65, 0, 128, 6, 119,
      104, 97, 109, 109, 121, 68, 137, 0, 128, 8, 64, 228, 5, 0, 0, 0, 0, 0]"
  by (simp add: createSegmentInfo_def TIMECODE_SCALE_def doubleToString_def float64Bits_def
      ebml_eval)

lemma sample_two_validate:
  "validateFrames [sampleFrame 20000, sampleFrame 20000, sampleFrame 1000]
     = Inr \<lparr> totalDuration = 41000, frameWidth = 64, frameHeight = 64 \<rparr>"
  by (simp add: validateFrames_def sampleFrame_def)

lemma sample_two_list:
  "clusterList [sampleFrame 20000, sampleFrame 20000, sampleFrame 1000] 0
     = [(0, [sampleFrame 20000, sampleFrame 20000]), (40000, [sampleFrame 1000])]"
  by (simp add: sampleFrame_def CLUSTER_MAX_DURATION_def)

lemma sample_duration: "duration (sampleFrame d) = d"
  by (simp add: sampleFrame_def)

lemma sample_two_cluster0:
  "generateEBML [clusterElement (0, [sampleFrame 20000, sampleFrame 20000])] =
     Inr [31, 67, 182, 117, 0, 128, 40, 231, 1, 1, 0, 163, 0, 128, 14, 129, 0, 0, 128,
      0, 0, 0, 157, 1, 42, 64, 0, 64, 0, 163, 0, 128, 14, 129, 78, 32, 128,
      0, 0, 0, 157, 1, 42, 64, 0, 64, 0]"
  by (simp add: clusterElement_def sample_payload sample_duration blockHeader_bytes ebml_eval)

lemma sample_two_cluster1:
  "generateEBML [clusterElement (40000, [sampleFrame 1000])] =
     Inr [31, 67, 182, 117, 0, 128, 24, 231, 0, 128, 2, 156, 64, 163, 0, 128, 14,
      129, 0, 0, 128, 0, 0, 0, 157, 1, 42, 64, 0, 64, 0]"
  by (simp add: clusterElement_def sample_payload sample_duration blockHeader_bytes ebml_eval)

lemma sample_two_output:
  "toWebM [sampleFrame 20000, sampleFrame 20000, sampleFrame 1000] =
    Inr [26, 69, 223, 163, 0, 128, 39, 66, 134, 1, 1, 1, 66, 247, 1, 1, 1, 66,
      242, 1, 1, 4, 66, 243, 1, 1, 8, 66, 130, 0, 128, 4, 119, 101, 98, 109,
      66, 135, 1, 1, 2, 66, 133, 1, 1, 2, 24, 83, 128, 103, 0, 64, 1, 5, 21,
      73, 169, 102, 0, 128, 44, 42, 215, 177, 0, 128, 3, 15, 66, 64, 77,
      128, 0, 128, 6, 119, 104, 97, 109, 109, 121, 87, 65, 0, 128, 6, 119,
      104, 97, 109, 109, 121, 68, 137, 0, 128, 8, 64, 228, 5, 0, 0, 0, 0,
      0, 22, 84, 174, 107, 0, 128, 60, 174, 0, 128, 56, 215, 1, 1, 1, 115,
      197, 1, 1, 1, 156, 1, 1, 0, 34, 181, 156, 0, 128, 3, 117, 110, 100,
      134, 0, 128, 5, 86, 95, 86, 80, 56, 37, 134, 136, 0, 128, 3, 86, 80,
      56, 131, 1, 1, 1, 224, 0, 128, 8, 176, 1, 1, 64, 186, 1, 1, 64, 28,
      83, 187, 107, 0, 128, 58, 187, 0, 128, 24, 179, 1, 1, 0, 183, 0, 128,
      16, 247, 1, 1, 1, 241, 0, 128, 8, 0, 0, 0, 0, 0, 0, 0, 183, 187, 0,
      128, 26, 179, 0, 128, 2, 156, 64, 183, 0, 128, 16, 247, 1, 1, 1, 241,
      0, 128, 8, 0, 0, 0, 0, 0, 0, 0, 230, 31, 67, 182, 117, 0, 128, 40,
      231, 1, 1, 0, 163, 0, 128, 14, 129, 0, 0, 128, 0, 0, 0, 157, 1, 42,
      64, 0, 64, 0, 163, 0, 128, 14, 129, 78, 32, 128, 0, 0, 0, 157, 1, 42,
      64, 0, 64, 0, 31, 67, 182, 117, 0, 128, 24, 231, 0, 128, 2, 156, 64,
      163, 0, 128, 14, 129, 0, 0, 128, 0, 0, 0, 157, 1, 42, 64, 0, 64, 0]"
proof -
  let ?info = "\<lparr> totalDuration = 41000, frameWidth = 64, frameHeight = 64 \<rparr>"
  let ?cl = "[(0::int, [sampleFrame 20000, sampleFrame 20000]), (40000, [sampleFrame 1000])]"
  let ?rI = "[21, 73, 169, 102, 0, 128, 44, 42, 215, 177, 0, 128, 3, 15, 66, 64, 77,
      128, 0, 128, 6, 119, 104, 97, 109, 109, 121, 87, 65, 0, 128, 6, 119,
      104, 97, 109, 109, 121, 68, 137, 0, 128, 8, 64, 228, 5, 0, 0, 0, 0, 0::nat]"
  let ?rT = "[22, 84, 174, 107, 0, 128, 60, 174, 0, 128, 56, 215, 1, 1, 1, 115,
      197, 1, 1, 1, 156, 1, 1, 0, 34, 181, 156, 0, 128, 3, 117, 110, 100,
      134, 0, 128, 5, 86, 95, 86, 80, 56, 37, 134, 136, 0, 128, 3, 86, 80,
      56, 131, 1, 1, 1, 224, 0, 128, 8, 176, 1, 1, 64, 186, 1, 1, 64::nat]"
  let ?rZ = "[28, 83, 187, 107, 0, 128, 58, 187, 0, 128, 24, 179, 1, 1, 0, 183, 0, 128,
      16, 247, 1, 1, 1, 241, 0, 128, 8, 0, 0, 0, 0, 0, 0, 0, 0, 187, 0, 128, 26, 179, 0,
      128, 2, 156, 64, 183, 0, 128, 16, 247, 1, 1, 1, 241, 0, 128, 8, 0, 0, 0, 0, 0, 0, 0,
      0::nat]"
  let ?rQ = "[28, 83, 187, 107, 0, 128, 58, 187, 0, 128, 24, 179, 1, 1, 0, 183, 0, 128,
      16, 247, 1, 1, 1, 241, 0, 128, 8, 0, 0, 0, 0, 0, 0, 0, 183, 187, 0, 128, 26, 179, 0,
      128, 2, 156, 64, 183, 0, 128, 16, 247, 1, 1, 1, 241, 0, 128, 8, 0, 0, 0, 0, 0, 0, 0,
      230::nat]"
  let ?rA = "[31, 67, 182, 117, 0, 128, 40, 231, 1, 1, 0, 163, 0, 128, 14, 129, 0, 0, 128,
      0, 0, 0, 157, 1, 42, 64, 0, 64, 0, 163, 0, 128, 14, 129, 78, 32, 128,
      0, 0, 0, 157, 1, 42, 64, 0, 64, 0::nat]"
  let ?rB = "[31, 67, 182, 117, 0, 128, 24, 231, 0, 128, 2, 156, 64, 163, 0, 128, 14,
      129, 0, 0, 128, 0, 0, 0, 157, 1, 42, 64, 0, 64, 0::nat]"
  let ?hdr = "[26, 69, 223, 163, 0, 128, 39, 66, 134, 1, 1, 1, 66, 247, 1, 1, 1, 66,
      242, 1, 1, 4, 66, 243, 1, 1, 8, 66, 130, 0, 128, 4, 119, 101, 98, 109,
      66, 135, 1, 1, 2, 66, 133, 1, 1, 2::nat]"
  have rI: "generateEBML [createSegmentInfo (totalDuration ?info)] = Inr ?rI"
    by (simp add: info_41000_bytes)
  have rT: "generateEBML [createTracks (frameWidth ?info) (frameHeight ?info)] = Inr ?rT"
    by (simp add: tracks_bytes)
  have rQ0: "generateEBML
        [Typed 0x1c53bb6b (Children (map cuePointAt (map (\<lambda>c. (fst c, 0)) ?cl))) None]
      = Inr ?rZ"
    by (simp add: generateEBML_Cons2 cues_bytes_one cues_bytes_40000 vint_table js_eval
        numToBuffer.simps length_numToFixedBuffer numeral_2_eq_2 [symmetric])
  have rCs: "list_all2 (\<lambda>e r. generateEBML [e] = Inr r) (map clusterElement ?cl) [?rA, ?rB]"
    by (simp add: sample_two_cluster0 sample_two_cluster1)
  have rQ: "generateEBML
        [Typed 0x1c53bb6b
          (Children (map cuePointAt
            (fillPositions (map (\<lambda>c. (fst c, 0)) ?cl) 0
               (int (length ?rI) + int (length ?rT) + int (length ?rZ)) [?rA, ?rB]))) None]
      = Inr ?rQ"
    by (simp add: generateEBML_Cons2 cues_bytes_one cues_bytes_40000 vint_table js_eval
        numToBuffer.simps length_numToFixedBuffer numeral_2_eq_2 [symmetric])
  have hdr: "generateEBML [createEBMLHeader ?info] = Inr ?hdr"
    by (simp add: header_bytes)
  have sz: "vintSize (length (?rI @ ?rT @ ?rQ @ concat [?rA, ?rB])) = Inr [0, 64, 1, 5]"
    by (simp add: vint_table numeral_2_eq_2 [symmetric])
  show ?thesis
    using toWebM_run [OF sample_two_validate sample_two_list rI rT rQ0 rCs rQ hdr sz]
    by (simp add: numToBuffer.simps js_eval)
qed


lemma list_of_two: "length xs = 2 \<Longrightarrow> xs = [xs ! 0, xs ! 1]"
  by (auto simp: numeral_2_eq_2 length_Suc_conv)

theorem cue_positions_are_cluster_offsets_witness:
  "\<exists>out info cps clusters rI rT rQ rCs cps' rPs szQ hdr sz.
      toWebM [sampleFrame 20000, sampleFrame 20000, sampleFrame 1000] = Inr out
    \<and> validateFrames [sampleFrame 20000, sampleFrame 20000, sampleFrame 1000] = Inr info
    \<and> clusterLoop [sampleFrame 20000, sampleFrame 20000, sampleFrame 1000] 0
        = Inr (cps, clusters)
    \<and> length clusters = 2
    \<and> list_all2 (\<lambda>c r. generateEBML [c] = Inr r) clusters rCs
    \<and> out = hdr @ numToBuffer 0x18538067 @ sz @ rI @ rT @ rQ @ concat rCs
    \<and> rQ = numToBuffer 0x1c53bb6b @ szQ @ concat rPs
    \<and> length rI = 51 \<and> length rT = 67 \<and> length rQ = 65 \<and> length (rCs ! 0) = 47
    \<and> segmentOffset rI rT rQ rCs 0 = 183
    \<and> segmentOffset rI rT rQ rCs 1 = 230
    \<and> cueClusterPosition (cps' ! 0) = Some 183
    \<and> cueClusterPosition (cps' ! 1) = Some 230
    \<and> (\<exists>pre. rPs ! 0 = pre @ [0, 0, 0, 0, 0, 0, 0, 183])
    \<and> (\<exists>pre. rPs ! 1 = pre @ [0, 0, 0, 0, 0, 0, 0, 230])
    \<and> bigEndianValue [0, 0, 0, 0, 0, 0, 0, 230] = 230"
proof -
  let ?fs = "[sampleFrame 20000, sampleFrame 20000, sampleFrame 1000]"
  let ?rA = "[31, 67, 182, 117, 0, 128, 40, 231, 1, 1, 0, 163, 0, 128, 14, 129, 0, 0, 128,
      0, 0, 0, 157, 1, 42, 64, 0, 64, 0, 163, 0, 128, 14, 129, 78, 32, 128,
      0, 0, 0, 157, 1, 42, 64, 0, 64, 0::nat]"
  let ?rB = "[31, 67, 182, 117, 0, 128, 24, 231, 0, 128, 2, 156, 64, 163, 0, 128, 14,
      129, 0, 0, 128, 0, 0, 0, 157, 1, 42, 64, 0, 64, 0::nat]"
  from cue_positions_are_cluster_offsets [OF sample_two_output]
  obtain info cps clusters rI rT rQ rCs cps' rPs szQ hdr sz where
    info: "validateFrames ?fs = Inr info"
    and loop: "clusterLoop ?fs 0 = Inr (cps, clusters)"
    and rI: "generateEBML [createSegmentInfo (totalDuration info)] = Inr rI"
    and rT: "generateEBML [createTracks (frameWidth info) (frameHeight info)] = Inr rT"
    and rCs: "list_all2 (\<lambda>c r. generateEBML [c] = Inr r) clusters rCs"
    and out: "[26, 69, 223, 163, 0, 128, 39, 66, 134, 1, 1, 1, 66, 247, 1, 1, 1, 66,
      242, 1, 1, 4, 66, 243, 1, 1, 8, 66, 130, 0, 128, 4, 119, 101, 98, 109,
      66, 135, 1, 1, 2, 66, 133, 1, 1, 2, 24, 83, 128, 103, 0, 64, 1, 5, 21,
      73, 169, 102, 0, 128, 44, 42, 215, 177, 0, 128, 3, 15, 66, 64, 77,
      128, 0, 128, 6, 119, 104, 97, 109, 109, 121, 87, 65, 0, 128, 6, 119,
      104, 97, 109, 109, 121, 68, 137, 0, 128, 8, 64, 228, 5, 0, 0, 0, 0,
      0, 22, 84, 174, 107, 0, 128, 60, 174, 0, 128, 56, 215, 1, 1, 1, 115,
      197, 1, 1, 1, 156, 1, 1, 0, 34, 181, 156, 0, 128, 3, 117, 110, 100,
      134, 0, 128, 5, 86, 95, 86, 80, 56, 37, 134, 136, 0, 128, 3, 86, 80,
      56, 131, 1, 1, 1, 224, 0, 128, 8, 176, 1, 1, 64, 186, 1, 1, 64, 28,
      83, 187, 107, 0, 128, 58, 187, 0, 128, 24, 179, 1, 1, 0, 183, 0, 128,
      16, 247, 1, 1, 1, 241, 0, 128, 8, 0, 0, 0, 0, 0, 0, 0, 183, 187, 0,
      128, 26, 179, 0, 128, 2, 156, 64, 183, 0, 128, 16, 247, 1, 1, 1, 241,
      0, 128, 8, 0, 0, 0, 0, 0, 0, 0, 230, 31, 67, 182, 117, 0, 128, 40,
      231, 1, 1, 0, 163, 0, 128, 14, 129, 0, 0, 128, 0, 0, 0, 157, 1, 42,
      64, 0, 64, 0, 163, 0, 128, 14, 129, 78, 32, 128, 0, 0, 0, 157, 1, 42,
      64, 0, 64, 0, 31, 67, 182, 117, 0, 128, 24, 231, 0, 128, 2, 156, 64,
      163, 0, 128, 14, 129, 0, 0, 128, 0, 0, 0, 157, 1, 42, 64, 0, 64, 0]
      = hdr @ numToBuffer 0x18538067 @ sz @ rI @ rT @ rQ @ concat rCs"
    and rQ: "generateEBML [Typed 0x1c53bb6b (Children cps') None] = Inr rQ"
    and rQe: "rQ = numToBuffer 0x1c53bb6b @ szQ @ concat rPs"
    and lenP: "length cps = length clusters"
    and lenF: "length cps' = length clusters"
    and pos: "\<forall>n < length clusters.
          setClusterPosition (cps ! n) (segmentOffset rI rT rQ rCs n) = Inr (cps' ! n)
          \<and> cueClusterPosition (cps' ! n) = Some (segmentOffset rI rT rQ rCs n)
          \<and> (\<exists>pre. rPs ! n = pre @ numToFixedBuffer (segmentOffset rI rT rQ rCs n) 8)
          \<and> (segmentOffset rI rT rQ rCs n < 2 ^ 31 \<longrightarrow>
                bigEndianValue (numToFixedBuffer (segmentOffset rI rT rQ rCs n) 8)
                  = nat (segmentOffset rI rT rQ rCs n))"
    by blast
  from info have i: "info = \<lparr> totalDuration = 41000, frameWidth = 64, frameHeight = 64 \<rparr>"
    by (simp add: sample_two_validate)
  from rI have rI': "length rI = 51" by (auto simp: i info_41000_bytes)
  from rT have rT': "length rT = 67" by (auto simp: i tracks_bytes)
  from loop [unfolded clusterLoop_eq sample_two_list]
  have cps: "cps = [cuePointAt (0, 0), cuePointAt (40000, 0)]"
    and clusters: "clusters = [clusterElement (0, [sampleFrame 20000, sampleFrame 20000]),
        clusterElement (40000, [sampleFrame 1000])]"
    by (auto simp: cuePoint_cuePointAt)
  have len2: "length clusters = 2" by (simp add: clusters)
  from rCs have rCs': "rCs = [?rA, ?rB]"
    by (auto simp: clusters list_all2_Cons1 sample_two_cluster0 sample_two_cluster1)
  from pos len2 have p0: "setClusterPosition (cps ! 0) (segmentOffset rI rT rQ rCs 0) = Inr (cps' ! 0)"
    and p1: "setClusterPosition (cps ! 1) (segmentOffset rI rT rQ rCs 1) = Inr (cps' ! 1)"
    by simp_all
  have c0: "cps' ! 0 = cuePointAt (0, segmentOffset rI rT rQ rCs 0)"
    using p0 by (simp add: cps setClusterPosition_cuePointAt)
  have c1: "cps' ! 1 = cuePointAt (40000, segmentOffset rI rT rQ rCs 1)"
    using p1 by (simp add: cps setClusterPosition_cuePointAt)
  have "cps' = [cps' ! 0, cps' ! 1]"
    using lenF len2 by (intro list_of_two) simp
  then have cps': "cps' = [cuePointAt (0, segmentOffset rI rT rQ rCs 0),
      cuePointAt (40000, segmentOffset rI rT rQ rCs 1)]"
    by (simp only: c0 c1)
  have rQ': "length rQ = 65"
    using rQ unfolding cps' by (rule cues_two_length)
  have o0: "segmentOffset rI rT rQ rCs 0 = 183"
    by (simp add: segmentOffset_def rI' rT' rQ')
  have o1: "segmentOffset rI rT rQ rCs 1 = 230"
    by (simp add: segmentOffset_def rI' rT' rQ' rCs')
  have lt0: "0 < length clusters" and lt1: "1 < length clusters"
    using len2 by simp_all
  note P0 = pos [rule_format, OF lt0, unfolded o0]
  note P1 = pos [rule_format, OF lt1, unfolded o1]
  from P0 have q0: "cueClusterPosition (cps' ! 0) = Some 183"
    "\<exists>pre. rPs ! 0 = pre @ numToFixedBuffer 183 8"
    by blast+
  from P1 have q1: "cueClusterPosition (cps' ! 1) = Some 230"
    "\<exists>pre. rPs ! 1 = pre @ numToFixedBuffer 230 8"
    by blast+
  from P1 have "(230::int) < 2 ^ 31 \<longrightarrow> bigEndianValue (numToFixedBuffer 230 8) = nat 230"
    by blast
  then have v: "bigEndianValue (numToFixedBuffer 230 8) = 230"
    by simp
  have n0: "numToFixedBuffer 183 8 = [0, 0, 0, 0, 0, 0, 0, 183]"
    and n1: "numToFixedBuffer 230 8 = [0, 0, 0, 0, 0, 0, 0, 230]"
    by (simp_all add: js_eval)
  have l0: "length (rCs ! 0) = 47" by (simp add: rCs')
  show ?thesis
    apply (rule exI [of _ "hdr @ numToBuffer 0x18538067 @ sz @ rI @ rT @ rQ @ concat rCs"],
        rule exI [of _ info], rule exI [of _ cps], rule exI [of _ clusters],
        rule exI [of _ rI], rule exI [of _ rT], rule exI [of _ rQ], rule exI [of _ rCs],
        rule exI [of _ cps'], rule exI [of _ rPs], rule exI [of _ szQ], rule exI [of _ hdr],
        rule exI [of _ sz])
    using sample_two_output out info loop len2 rCs rQe rI' rT' rQ' l0 o0 o1 q0 q1 v
    unfolding n0 n1
    apply (intro conjI)
                     apply (simp_all only:)
    done
qed

lemma big_fields:
  "width (bigFrame n d) = 64" "height (bigFrame n d) = 64" "duration (bigFrame n d) = d"
  by (simp_all add: bigFrame_def)

lemma sample_fields:
  "width (sampleFrame d) = 64" "height (sampleFrame d) = 64"
  by (simp_all add: sampleFrame_def)

lemma big_payload:
  "framePayload (bigFrame n d) = [0, 0, 0, 157, 1, 42, 64, 0, 64, 0] @ replicate n 0"
  by (simp add: framePayload_def bigFrame_def indexOf_def keyframeMarker_def jsSlice_def)

lemma vint_big:
  "vintSize 88 = Inr [0, 128, 88]"
  "vintSize 1073741738 = Inr [0, 16, 63, 255, 255, 170]"
  "vintSize 1073741749 = Inr [0, 16, 63, 255, 255, 181]"
  "vintSize 1073741751 = Inr [0, 16, 63, 255, 255, 183]"
  "vintSize 2147483764 = Inr [0, 16, 128, 0, 0, 116]"
  by (simp_all add: vint_eval)

lemma num_bytes:
  "bitsToBuffer (toString2 0) = [0]"
  "bitsToBuffer (toString2 30000) = [117, 48]"
  "bitsToBuffer (toString2 60000) = [234, 96]"
  by (simp_all add: ebml_eval)

lemmas big_eval = vint_big vint_table num_bytes numToBuffer.simps js_shr_8 js_and_255
  toInt32_def toUint8_def strToBuffer_def numeral_2_eq_2 [symmetric]

lemma info_61000_bytes:
  "generateEBML [createSegmentInfo 61000] =
     Inr [21, 73, 169, 102, 0, 128, 44, 42, 215, 177, 0, 128, 3, 15, 66, 64, 77,
      128, 0, 128, 6, 119, 104, 97, 109, 109, 121, 87, 65, 0, 128, 6, 119,
      104, 97, 109, 109, 121, 68, 137, 0, 128, 8, 64, 237, 201, 0, 0, 0, 0, 0]"
  by (simp add: createSegmentInfo_def TIMECODE_SCALE_def doubleToString_def float64Bits_def
      ebml_eval)

lemma cues_bytes_30000:
  "generateEBML [cuePointAt (30000, p)] =
     Inr ([187, 0, 128, 26, 179, 0, 128, 2, 117, 48, 183, 0, 128, 16, 247, 1, 1, 1,
           241, 0, 128, 8] @ numToFixedBuffer p 8)"
  by (simp add: cuePointAt_def length_numToFixedBuffer ebml_eval
      del: numToFixedBuffer_numeral)

lemma cues_bytes_60000:
  "generateEBML [cuePointAt (60000, p)] =
     Inr ([187, 0, 128, 26, 179, 0, 128, 2, 234, 96, 183, 0, 128, 16, 247, 1, 1, 1,
           241, 0, 128, 8] @ numToFixedBuffer p 8)"
  by (simp add: cuePointAt_def length_numToFixedBuffer ebml_eval
      del: numToFixedBuffer_numeral)

lemma cues_three_bytes:
  "generateEBML
     [Typed 0x1c53bb6b
        (Children [cuePointAt (0, p), cuePointAt (30000, q), cuePointAt (60000, r)]) None] =
     Inr ([28, 83, 187, 107, 0, 128, 88]
          @ [187, 0, 128, 24, 179, 1, 1, 0, 183, 0, 128, 16, 247, 1, 1, 1, 241, 0, 128, 8]
          @ numToFixedBuffer p 8
          @ [187, 0, 128, 26, 179, 0, 128, 2, 117, 48, 183, 0, 128, 16, 247, 1, 1, 1,
             241, 0, 128, 8]
          @ numToFixedBuffer q 8
          @ [187, 0, 128, 26, 179, 0, 128, 2, 234, 96, 183, 0, 128, 16, 247, 1, 1, 1,
             241, 0, 128, 8]
          @ numToFixedBuffer r 8)"
proof -
  have ne: "(0x1c53bb6b::int) \<noteq> 0" by simp
  show ?thesis
    unfolding generateEBML_Children [OF ne] generateEBML_Cons2 cues_bytes_one cues_bytes_30000
      cues_bytes_60000
    by (simp add: vint_big numToBuffer.simps js_shr_8 js_and_255 toInt32_def toUint8_def
        length_numToFixedBuffer numeral_2_eq_2 [symmetric])
qed

lemma big_cluster0:
  "generateEBML [clusterElement (0, [bigFrame 1073741724 30000])] =
     Inr ([31, 67, 182, 117, 0, 16, 63, 255, 255, 181, 231, 1, 1, 0,
           163, 0, 16, 63, 255, 255, 170, 129, 0, 0, 128, 0, 0, 0, 157, 1, 42, 64, 0, 64, 0]
          @ replicate 1073741724 0)"
  by (simp add: clusterElement_def big_payload blockHeader_bytes big_eval)

lemma big_cluster1:
  "generateEBML [clusterElement (30000, [bigFrame 1073741724 30000])] =
     Inr ([31, 67, 182, 117, 0, 16, 63, 255, 255, 183, 231, 0, 128, 2, 117, 48,
           163, 0, 16, 63, 255, 255, 170, 129, 0, 0, 128, 0, 0, 0, 157, 1, 42, 64, 0, 64, 0]
          @ replicate 1073741724 0)"
  by (simp add: clusterElement_def big_payload blockHeader_bytes big_eval)

lemma big_cluster2:
  "generateEBML [clusterElement (60000, [sampleFrame 1000])] =
     Inr [31, 67, 182, 117, 0, 128, 24, 231, 0, 128, 2, 234, 96, 163, 0, 128, 14,
      129, 0, 0, 128, 0, 0, 0, 157, 1, 42, 64, 0, 64, 0]"
  by (simp add: clusterElement_def sample_payload blockHeader_bytes big_eval)

lemma big_validate:
  "validateFrames [bigFrame 1073741724 30000, bigFrame 1073741724 30000, sampleFrame 1000]
     = Inr \<lparr> totalDuration = 61000, frameWidth = 64, frameHeight = 64 \<rparr>"
  by (simp add: validateFrames_def big_fields sample_fields sample_duration)

lemma big_list:
  "clusterList [bigFrame 1073741724 30000, bigFrame 1073741724 30000, sampleFrame 1000] 0
     = [(0, [bigFrame 1073741724 30000]), (30000, [bigFrame 1073741724 30000]),
        (60000, [sampleFrame 1000])]"
  by (simp add: big_fields sample_duration CLUSTER_MAX_DURATION_def)

lemma big_output:
  "toWebM [bigFrame 1073741724 30000, bigFrame 1073741724 30000, sampleFrame 1000] =
    Inr ([26, 69, 223, 163, 0, 128, 39, 66, 134, 1, 1, 1, 66, 247, 1, 1, 1, 66,
      242, 1, 1, 4, 66, 243, 1, 1, 8, 66, 130, 0, 128, 4, 119, 101, 98, 109,
      66, 135, 1, 1, 2, 66, 133, 1, 1, 2]
      @ [24, 83, 128, 103] @ [0, 16, 128, 0, 0, 116]
      @ [21, 73, 169, 102, 0, 128, 44, 42, 215, 177, 0, 128, 3, 15, 66, 64, 77,
      128, 0, 128, 6, 119, 104, 97, 109, 109, 121, 87, 65, 0, 128, 6, 119,
      104, 97, 109, 109, 121, 68, 137, 0, 128, 8, 64, 237, 201, 0, 0, 0, 0, 0]
      @ [22, 84, 174, 107, 0, 128, 60, 174, 0, 128, 56, 215, 1, 1, 1, 115,
      197, 1, 1, 1, 156, 1, 1, 0, 34, 181, 156, 0, 128, 3, 117, 110, 100,
      134, 0, 128, 5, 86, 95, 86, 80, 56, 37, 134, 136, 0, 128, 3, 86, 80,
      56, 131, 1, 1, 1, 224, 0, 128, 8, 176, 1, 1, 64, 186, 1, 1, 64]
      @ [28, 83, 187, 107, 0, 128, 88,
       187, 0, 128, 24, 179, 1, 1, 0, 183, 0, 128, 16, 247, 1, 1, 1, 241, 0, 128, 8,
       0, 0, 0, 0, 0, 0, 0, 213,
       187, 0, 128, 26, 179, 0, 128, 2, 117, 48, 183, 0, 128, 16, 247, 1, 1, 1, 241, 0, 128, 8,
       0, 0, 0, 0, 64, 0, 0, 148,
       187, 0, 128, 26, 179, 0, 128, 2, 234, 96, 183, 0, 128, 16, 247, 1, 1, 1, 241, 0, 128, 8,
       255, 255, 255, 255, 128, 0, 0, 85]
      @ [31, 67, 182, 117, 0, 16, 63, 255, 255, 181, 231, 1, 1, 0,
       163, 0, 16, 63, 255, 255, 170, 129, 0, 0, 128, 0, 0, 0, 157, 1, 42, 64, 0, 64, 0]
      @ replicate 1073741724 0
      @ [31, 67, 182, 117, 0, 16, 63, 255, 255, 183, 231, 0, 128, 2, 117, 48,
       163, 0, 16, 63, 255, 255, 170, 129, 0, 0, 128, 0, 0, 0, 157, 1, 42, 64, 0, 64, 0]
      @ replicate 1073741724 0
      @ [31, 67, 182, 117, 0, 128, 24, 231, 0, 128, 2, 234, 96, 163, 0, 128, 14,
      129, 0, 0, 128, 0, 0, 0, 157, 1, 42, 64, 0, 64, 0])"
proof -
  let ?info = "\<lparr> totalDuration = 61000, frameWidth = 64, frameHeight = 64 \<rparr>"
  let ?cl = "[(0::int, [bigFrame 1073741724 30000]), (30000, [bigFrame 1073741724 30000]),
        (60000, [sampleFrame 1000])]"
  let ?rI = "[21, 73, 169, 102, 0, 128, 44, 42, 215, 177, 0, 128, 3, 15, 66, 64, 77,
      128, 0, 128, 6, 119, 104, 97, 109, 109, 121, 87, 65, 0, 128, 6, 119,
      104, 97, 109, 109, 121, 68, 137, 0, 128, 8, 64, 237, 201, 0, 0, 0, 0, 0] :: bytes"
  let ?rT = "[22, 84, 174, 107, 0, 128, 60, 174, 0, 128, 56, 215, 1, 1, 1, 115,
      197, 1, 1, 1, 156, 1, 1, 0, 34, 181, 156, 0, 128, 3, 117, 110, 100,
      134, 0, 128, 5, 86, 95, 86, 80, 56, 37, 134, 136, 0, 128, 3, 86, 80,
      56, 131, 1, 1, 1, 224, 0, 128, 8, 176, 1, 1, 64, 186, 1, 1, 64] :: bytes"
  let ?rZ = "[28, 83, 187, 107, 0, 128, 88,
       187, 0, 128, 24, 179, 1, 1, 0, 183, 0, 128, 16, 247, 1, 1, 1, 241, 0, 128, 8,
       0, 0, 0, 0, 0, 0, 0, 0,
       187, 0, 128, 26, 179, 0, 128, 2, 117, 48, 183, 0, 128, 16, 247, 1, 1, 1, 241, 0, 128, 8,
       0, 0, 0, 0, 0, 0, 0, 0,
       187, 0, 128, 26, 179, 0, 128, 2, 234, 96, 183, 0, 128, 16, 247, 1, 1, 1, 241, 0, 128, 8,
       0, 0, 0, 0, 0, 0, 0, 0] :: bytes"
  let ?rQ = "[28, 83, 187, 107, 0, 128, 88,
       187, 0, 128, 24, 179, 1, 1, 0, 183, 0, 128, 16, 247, 1, 1, 1, 241, 0, 128, 8,
       0, 0, 0, 0, 0, 0, 0, 213,
       187, 0, 128, 26, 179, 0, 128, 2, 117, 48, 183, 0, 128, 16, 247, 1, 1, 1, 241, 0, 128, 8,
       0, 0, 0, 0, 64, 0, 0, 148,
       187, 0, 128, 26, 179, 0, 128, 2, 234, 96, 183, 0, 128, 16, 247, 1, 1, 1, 241, 0, 128, 8,
       255, 255, 255, 255, 128, 0, 0, 85] :: bytes"
  let ?rA = "[31, 67, 182, 117, 0, 16, 63, 255, 255, 181, 231, 1, 1, 0,
       163, 0, 16, 63, 255, 255, 170, 129, 0, 0, 128, 0, 0, 0, 157, 1, 42, 64, 0, 64, 0] @ replicate 1073741724 (0::nat)"
  let ?rB = "[31, 67, 182, 117, 0, 16, 63, 255, 255, 183, 231, 0, 128, 2, 117, 48,
       163, 0, 16, 63, 255, 255, 170, 129, 0, 0, 128, 0, 0, 0, 157, 1, 42, 64, 0, 64, 0] @ replicate 1073741724 (0::nat)"
  let ?rC = "[31, 67, 182, 117, 0, 128, 24, 231, 0, 128, 2, 234, 96, 163, 0, 128, 14,
      129, 0, 0, 128, 0, 0, 0, 157, 1, 42, 64, 0, 64, 0] :: bytes"
  let ?hdr = "[26, 69, 223, 163, 0, 128, 39, 66, 134, 1, 1, 1, 66, 247, 1, 1, 1, 66,
      242, 1, 1, 4, 66, 243, 1, 1, 8, 66, 130, 0, 128, 4, 119, 101, 98, 109,
      66, 135, 1, 1, 2, 66, 133, 1, 1, 2] :: bytes"
  have rI: "generateEBML [createSegmentInfo (totalDuration ?info)] = Inr ?rI"
    by (simp add: info_61000_bytes)
  have rT: "generateEBML [createTracks (frameWidth ?info) (frameHeight ?info)] = Inr ?rT"
    by (simp add: tracks_bytes)
  have rQ0: "generateEBML
        [Typed 0x1c53bb6b (Children (map cuePointAt (map (\<lambda>c. (fst c, 0)) ?cl))) None]
      = Inr ?rZ"
    unfolding list.map fst_conv cues_three_bytes by (simp add: js_eval)
  have rCs: "list_all2 (\<lambda>e r. generateEBML [e] = Inr r) (map clusterElement ?cl)
      [?rA, ?rB, ?rC]"
    by (simp add: big_cluster0 big_cluster1 big_cluster2)
  have fill: "fillPositions (map (\<lambda>c. (fst c, 0)) ?cl) 0
               (int (length ?rI) + int (length ?rT) + int (length ?rZ)) [?rA, ?rB, ?rC]
      = [(0, 213), (30000, 1073741972), (60000, 2147483733)]"
    by simp
  have rQ: "generateEBML
        [Typed 0x1c53bb6b
          (Children (map cuePointAt
            (fillPositions (map (\<lambda>c. (fst c, 0)) ?cl) 0
               (int (length ?rI) + int (length ?rT) + int (length ?rZ)) [?rA, ?rB, ?rC]))) None]
      = Inr ?rQ"
    unfolding fill unfolding list.map cues_three_bytes by (simp add: js_eval)
  have hdr: "generateEBML [createEBMLHeader ?info] = Inr ?hdr"
    by (simp add: header_bytes)
  have sz: "vintSize (length (?rI @ ?rT @ ?rQ @ concat [?rA, ?rB, ?rC]))
      = Inr [0, 16, 128, 0, 0, 116]"
    by (simp add: vint_big)
  show ?thesis
    using toWebM_run [OF big_validate big_list rI rT rQ0 rCs rQ hdr sz]
    by (simp add: numToBuffer.simps js_eval)
qed


text \<open>
  Claim C2 as stated fails once a cluster starts 2 GiB or more into the Segment.  Two
  frames of 1073741734 bytes with the duration 30000 each close a cluster of their own;
  the third cluster starts at offset 2147483733 = \<open>2 ^ 31 + 85\<close>, and the eight bytes
  stored in cue point 2 are \<open>ff ff ff ff 80 00 00 55\<close>, which is not that offset.
\<close>

theorem cue_position_beyond_int32:
  "toWebM [bigFrame 1073741724 30000, bigFrame 1073741724 30000, sampleFrame 1000] =
    Inr ([26, 69, 223, 163, 0, 128, 39, 66, 134, 1, 1, 1, 66, 247, 1, 1, 1, 66,
      242, 1, 1, 4, 66, 243, 1, 1, 8, 66, 130, 0, 128, 4, 119, 101, 98, 109,
      66, 135, 1, 1, 2, 66, 133, 1, 1, 2]
      @ [24, 83, 128, 103] @ [0, 16, 128, 0, 0, 116]
      @ [21, 73, 169, 102, 0, 128, 44, 42, 215, 177, 0, 128, 3, 15, 66, 64, 77,
      128, 0, 128, 6, 119, 104, 97, 109, 109, 121, 87, 65, 0, 128, 6, 119,
      104, 97, 109, 109, 121, 68, 137, 0, 128, 8, 64, 237, 201, 0, 0, 0, 0, 0]
      @ [22, 84, 174, 107, 0, 128, 60, 174, 0, 128, 56, 215, 1, 1, 1, 115,
      197, 1, 1, 1, 156, 1, 1, 0, 34, 181, 156, 0, 128, 3, 117, 110, 100,
      134, 0, 128, 5, 86, 95, 86, 80, 56, 37, 134, 136, 0, 128, 3, 86, 80,
      56, 131, 1, 1, 1, 224, 0, 128, 8, 176, 1, 1, 64, 186, 1, 1, 64]
      @ [28, 83, 187, 107, 0, 128, 88,
       187, 0, 128, 24, 179, 1, 1, 0, 183, 0, 128, 16, 247, 1, 1, 1, 241, 0, 128, 8,
       0, 0, 0, 0, 0, 0, 0, 213,
       187, 0, 128, 26, 179, 0, 128, 2, 117, 48, 183, 0, 128, 16, 247, 1, 1, 1, 241, 0, 128, 8,
       0, 0, 0, 0, 64, 0, 0, 148,
       187, 0, 128, 26, 179, 0, 128, 2, 234, 96, 183, 0, 128, 16, 247, 1, 1, 1, 241, 0, 128, 8,
       255, 255, 255, 255, 128, 0, 0, 85]
      @ [31, 67, 182, 117, 0, 16, 63, 255, 255, 181, 231, 1, 1, 0,
       163, 0, 16, 63, 255, 255, 170, 129, 0, 0, 128, 0, 0, 0, 157, 1, 42, 64, 0, 64, 0]
      @ replicate 1073741724 0
      @ [31, 67, 182, 117, 0, 16, 63, 255, 255, 183, 231, 0, 128, 2, 117, 48,
       163, 0, 16, 63, 255, 255, 170, 129, 0, 0, 128, 0, 0, 0, 157, 1, 42, 64, 0, 64, 0]
      @ replicate 1073741724 0
      @ [31, 67, 182, 117, 0, 128, 24, 231, 0, 128, 2, 234, 96, 163, 0, 128, 14,
      129, 0, 0, 128, 0, 0, 0, 157, 1, 42, 64, 0, 64, 0])
   \<and> length ([21, 73, 169, 102, 0, 128, 44, 42, 215, 177, 0, 128, 3, 15, 66, 64, 77,
      128, 0, 128, 6, 119, 104, 97, 109, 109, 121, 87, 65, 0, 128, 6, 119,
      104, 97, 109, 109, 121, 68, 137, 0, 128, 8, 64, 237, 201, 0, 0, 0, 0, 0]
      @ [22, 84, 174, 107, 0, 128, 60, 174, 0, 128, 56, 215, 1, 1, 1, 115,
      197, 1, 1, 1, 156, 1, 1, 0, 34, 181, 156, 0, 128, 3, 117, 110, 100,
      134, 0, 128, 5, 86, 95, 86, 80, 56, 37, 134, 136, 0, 128, 3, 86, 80,
      56, 131, 1, 1, 1, 224, 0, 128, 8, 176, 1, 1, 64, 186, 1, 1, 64]
      @ [28, 83, 187, 107, 0, 128, 88,
       187, 0, 128, 24, 179, 1, 1, 0, 183, 0, 128, 16, 247, 1, 1, 1, 241, 0, 128, 8,
       0, 0, 0, 0, 0, 0, 0, 213,
       187, 0, 128, 26, 179, 0, 128, 2, 117, 48, 183, 0, 128, 16, 247, 1, 1, 1, 241, 0, 128, 8,
       0, 0, 0, 0, 64, 0, 0, 148,
       187, 0, 128, 26, 179, 0, 128, 2, 234, 96, 183, 0, 128, 16, 247, 1, 1, 1, 241, 0, 128, 8,
       255, 255, 255, 255, 128, 0, 0, 85]
      @ [31, 67, 182, 117, 0, 16, 63, 255, 255, 181, 231, 1, 1, 0,
       163, 0, 16, 63, 255, 255, 170, 129, 0, 0, 128, 0, 0, 0, 157, 1, 42, 64, 0, 64, 0]
      @ replicate 1073741724 (0::nat)
      @ [31, 67, 182, 117, 0, 16, 63, 255, 255, 183, 231, 0, 128, 2, 117, 48,
       163, 0, 16, 63, 255, 255, 170, 129, 0, 0, 128, 0, 0, 0, 157, 1, 42, 64, 0, 64, 0]
      @ replicate 1073741724 (0::nat)) = 2147483733
   \<and> bigEndianValue [255, 255, 255, 255, 128, 0, 0, 85] = 18446744071562068053"
proof -
  have a: "length ([21, 73, 169, 102, 0, 128, 44, 42, 215, 177, 0, 128, 3, 15, 66, 64, 77,
      128, 0, 128, 6, 119, 104, 97, 109, 109, 121, 87, 65, 0, 128, 6, 119,
      104, 97, 109, 109, 121, 68, 137, 0, 128, 8, 64, 237, 201, 0, 0, 0, 0, 0]
      @ [22, 84, 174, 107, 0, 128, 60, 174, 0, 128, 56, 215, 1, 1, 1, 115,
      197, 1, 1, 1, 156, 1, 1, 0, 34, 181, 156, 0, 128, 3, 117, 110, 100,
      134, 0, 128, 5, 86, 95, 86, 80, 56, 37, 134, 136, 0, 128, 3, 86, 80,
      56, 131, 1, 1, 1, 224, 0, 128, 8, 176, 1, 1, 64, 186, 1, 1, 64]
      @ [28, 83, 187, 107, 0, 128, 88,
       187, 0, 128, 24, 179, 1, 1, 0, 183, 0, 128, 16, 247, 1, 1, 1, 241, 0, 128, 8,
       0, 0, 0, 0, 0, 0, 0, 213,
       187, 0, 128, 26, 179, 0, 128, 2, 117, 48, 183, 0, 128, 16, 247, 1, 1, 1, 241, 0, 128, 8,
       0, 0, 0, 0, 64, 0, 0, 148,
       187, 0, 128, 26, 179, 0, 128, 2, 234, 96, 183, 0, 128, 16, 247, 1, 1, 1, 241, 0, 128, 8,
       255, 255, 255, 255, 128, 0, 0, 85]
      @ [31, 67, 182, 117, 0, 16, 63, 255, 255, 181, 231, 1, 1, 0,
       163, 0, 16, 63, 255, 255, 170, 129, 0, 0, 128, 0, 0, 0, 157, 1, 42, 64, 0, 64, 0]
      @ replicate 1073741724 (0::nat)
      @ [31, 67, 182, 117, 0, 16, 63, 255, 255, 183, 231, 0, 128, 2, 117, 48,
       163, 0, 16, 63, 255, 255, 170, 129, 0, 0, 128, 0, 0, 0, 157, 1, 42, 64, 0, 64, 0]
      @ replicate 1073741724 (0::nat)) = 2147483733"
    by simp
  have b: "bigEndianValue [255, 255, 255, 255, 128, 0, 0, 85] = 18446744071562068053"
    by (simp add: bigEndianValue_def)
  from big_output a b show ?thesis by (intro conjI)
qed

end
